theory Spec2Isabelle
  imports Main "HOL-Library.Word" "HOL-Library.Multiset"
begin

section \<open>Errors\<close>

text \<open>
  The exceptions of \<^verbatim>\<open>ms2pip/exceptions.py\<close> that the modelled functions raise, and the
  Python built-in exceptions that escape from them. An exception is a value: every
  function that can raise returns \<open>error + 'a\<close>, with \<open>Inl\<close> for the exception.
  The string is the argument the exception is constructed with.
\<close>

datatype error =
    InvalidPeptideError string
  | InvalidAminoAcidError string
  | InvalidModificationFormattingError string
  | UnknownModificationError string
  | InvalidXGBoostModelError
  | UnknownFragmentationMethodError
  | ValueError string
  | KeyError string
  | IndexError string
  | NameError string
  | FileNotFoundError string
  | ZeroDivisionError string
  | OverflowError string

section \<open>Reshaping the flat prediction vector (\<^verbatim>\<open>predict_xgboost.py\<close>)\<close>

text \<open>
  \<^verbatim>\<open>itertools.islice(it, stop)\<close> on an iterator: it rejects a stop value that is negative
  or above \<^verbatim>\<open>sys.maxsize\<close> with a ValueError, and otherwise yields the next \<open>stop\<close>
  elements of the iterator, or fewer when the iterator runs out. The iterator is
  modelled by the list of elements it has not yet produced; \<open>islice\<close> returns the
  elements taken together with the iterator's new state.
\<close>

definition sys_maxsize :: int where
  "sys_maxsize = 2 ^ 63 - 1"

definition islice :: "'a list \<Rightarrow> int \<Rightarrow> error + ('a list \<times> 'a list)" where
  "islice it stop =
     (if stop < 0 \<or> sys_maxsize < stop
      then Inl (ValueError ''Stop argument for islice() must be None or an integer: 0 <= x <= sys.maxsize.'')
      else Inr (take (nat stop) it, drop (nat stop) it))"

text \<open>
  \<^verbatim>\<open>
  def _split_list_by_lengths(list_in, lengths):
      list_in = iter(list_in)
      return [list(islice(list_in, elem)) for elem in lengths]
  \<close>
  The comprehension consumes the one shared iterator group by group, in the order of
  \<open>lengths\<close>; the first \<open>islice\<close> that raises ends the call.
\<close>

fun split_list_by_lengths :: "'a list \<Rightarrow> int list \<Rightarrow> error + 'a list list" where
  "split_list_by_lengths list_in [] = Inr []"
| "split_list_by_lengths list_in (elem # lengths) =
     (case islice list_in elem of
        Inl e \<Rightarrow> Inl e
      | Inr (grp, rest) \<Rightarrow>
          (case split_list_by_lengths rest lengths of
             Inl e \<Rightarrow> Inl e
           | Inr grps \<Rightarrow> Inr (grp # grps)))"

text \<open>
  Line 27 of \<^verbatim>\<open>process_peptides_xgb\<close>:
  \<^verbatim>\<open>num_ions = (peprec["peptide"].str.len() - 1).to_list()\<close>.
  The subtraction is on Python integers, so an empty peptide gives \<open>-1\<close>.
\<close>

definition num_ions :: "string list \<Rightarrow> int list" where
  "num_ions peptides = map (\<lambda>p. int (length p) - 1) peptides"

text \<open>
  Lines 44 to 50 of \<^verbatim>\<open>process_peptides_xgb\<close>, the part of the loop body that follows the
  inference call; \<open>preds\<close> is the flat vector \<^verbatim>\<open>bst.predict(feature_vectors)\<close> returned.
  \<^verbatim>\<open>
  preds = _split_list_by_lengths(preds, num_ions)
  if ion_type in ["x", "y", "z"]:
      preds = [np.array(x[::-1], dtype=np.float32) for x in preds]
  elif ion_type in ["a", "b", "c"]:
      preds = [np.array(x, dtype=np.float32) for x in preds]
  else:
      raise ValueError(f"Unsupported ion_type: {ion_type}")
  \<close>
  The predictions are already 32-bit floats, so the conversion to \<^verbatim>\<open>np.float32\<close> keeps
  every element; the element type is left abstract.
\<close>

definition reshape_preds :: "string \<Rightarrow> 'a list \<Rightarrow> int list \<Rightarrow> error + 'a list list" where
  "reshape_preds ion_type preds n_ions =
     (case split_list_by_lengths preds n_ions of
        Inl e \<Rightarrow> Inl e
      | Inr grps \<Rightarrow>
          if ion_type \<in> set [''x'', ''y'', ''z''] then Inr (map rev grps)
          else if ion_type \<in> set [''a'', ''b'', ''c''] then Inr grps
          else Inl (ValueError (''Unsupported ion_type: '' @ ion_type)))"

text \<open>The offset of group \<open>i\<close> in the flat vector: the sum of the lengths before it.\<close>

definition group_offset :: "int list \<Rightarrow> nat \<Rightarrow> nat" where
  "group_offset lengths i = nat (sum_list (take i lengths))"

definition valid_stops :: "int list \<Rightarrow> bool" where
  "valid_stops lengths = list_all (\<lambda>n. 0 \<le> n \<and> n \<le> sys_maxsize) lengths"

section \<open>Python strings, integers and dictionaries\<close>

text \<open>
  Python strings are modelled as HOL strings, whose characters are bytes. A string is
  ASCII when every character is below 128. On ASCII strings \<^verbatim>\<open>str.upper()\<close> maps the
  letters a to z to A to Z and leaves every other character as it is, which is what
  \<open>py_upper\<close> does. Outside ASCII \<^verbatim>\<open>str.upper()\<close> can change a character and even the
  length of the string (U+00DF becomes SS), which \<open>py_upper\<close> does not follow: what is
  proved about upper-cased input is proved for ASCII strings, or for strings whose
  upper-cased characters are required to be residue letters.
\<close>

definition is_ascii :: "string \<Rightarrow> bool" where
  "is_ascii s = list_all (\<lambda>c. (of_char c :: nat) < 128) s"

definition upper_char :: "char \<Rightarrow> char" where
  "upper_char c =
     (case map_of (zip ''abcdefghijklmnopqrstuvwxyz'' ''ABCDEFGHIJKLMNOPQRSTUVWXYZ'') c of
        Some u \<Rightarrow> u
      | None \<Rightarrow> c)"

definition py_upper :: "string \<Rightarrow> string" where
  "py_upper s = map upper_char s"

text \<open>\<^verbatim>\<open>s.replace(a, b)\<close> for one-character strings \<open>a\<close> and \<open>b\<close>.\<close>

definition py_replace :: "char \<Rightarrow> char \<Rightarrow> string \<Rightarrow> string" where
  "py_replace a b s = map (\<lambda>c. if c = a then b else c) s"

text \<open>
  \<^verbatim>\<open>s.split(sep)\<close> for a one-character separator: the pieces between the separators,
  always at least one piece (the empty string splits into one empty piece).
\<close>

fun py_split :: "char \<Rightarrow> string \<Rightarrow> string list" where
  "py_split sep [] = [ [] ]"
| "py_split sep (c # cs) =
     (if c = sep then [] # py_split sep cs
      else (case py_split sep cs of
              [] \<Rightarrow> [ [c] ]
            | t # ts \<Rightarrow> (c # t) # ts))"

text \<open>
  \<^verbatim>\<open>int(s)\<close> on an ASCII string: surrounding whitespace is dropped, one sign is allowed,
  then decimal digits, where single underscores may stand between digits. Anything else
  raises ValueError (\<open>None\<close>).
\<close>

definition is_space :: "char \<Rightarrow> bool" where
  "is_space c = (c \<in> set [CHR '' '', CHR 0x09, CHR 0x0A, CHR 0x0B, CHR 0x0C, CHR 0x0D])"

definition py_strip :: "string \<Rightarrow> string" where
  "py_strip s = rev (dropWhile is_space (rev (dropWhile is_space s)))"

definition digit_value :: "char \<Rightarrow> nat option" where
  "digit_value c = map_of (zip ''0123456789'' [0..<10]) c"

definition digits_value :: "string \<Rightarrow> nat" where
  "digits_value ds = foldl (\<lambda>acc c. 10 * acc + (case digit_value c of Some d \<Rightarrow> d | None \<Rightarrow> 0)) 0 ds"

definition py_int :: "string \<Rightarrow> int option" where
  "py_int s =
     (let t = py_strip s;
          neg = (case t of c # _ \<Rightarrow> c = CHR ''-'' | [] \<Rightarrow> False);
          body = (case t of c # r \<Rightarrow> if c = CHR ''-'' \<or> c = CHR ''+'' then r else t | [] \<Rightarrow> t);
          grps = py_split CHR ''_'' body
      in if list_all (\<lambda>g. g \<noteq> [] \<and> list_all (\<lambda>c. digit_value c \<noteq> None) g) grps
         then Some (if neg then - int (digits_value (concat grps))
                    else int (digits_value (concat grps)))
         else None)"

text \<open>
  A Python \<^verbatim>\<open>dict\<close> is an association list with distinct keys in insertion order.
  \<^verbatim>\<open>d[k] = v\<close> overwrites the value of a key that is present, which keeps its place,
  and appends a new key at the end.
\<close>

type_synonym ('k, 'v) dict = "('k \<times> 'v) list"

fun dict_get :: "('k, 'v) dict \<Rightarrow> 'k \<Rightarrow> 'v option" where
  "dict_get [] k = None"
| "dict_get ((k', v) # d) k = (if k' = k then Some v else dict_get d k)"

fun dict_set :: "('k, 'v) dict \<Rightarrow> 'k \<Rightarrow> 'v \<Rightarrow> ('k, 'v) dict" where
  "dict_set [] k v = [(k, v)]"
| "dict_set ((k', v') # d) k v = (if k' = k then (k, v) # d else (k', v') # dict_set d k v)"

text \<open>A dict comprehension \<^verbatim>\<open>{k: v for k, v in items}\<close>: the items are stored one by one.\<close>

definition dict_of_items :: "('k \<times> 'v) list \<Rightarrow> ('k, 'v) dict" where
  "dict_of_items items = foldl (\<lambda>d (k, v). dict_set d k v) [] items"

section \<open>The amino acid table (\<^verbatim>\<open>_utils/peptides.py\<close>)\<close>

definition AMINO_ACIDS :: "string list" where
  "AMINO_ACIDS = [''A'', ''C'', ''D'', ''E'', ''F'', ''G'', ''H'', ''I'', ''K'', ''M'',
                  ''N'', ''P'', ''Q'', ''R'', ''S'', ''T'', ''V'', ''W'', ''Y'']"

text \<open>\<^verbatim>\<open>AMINO_ACID_IDS = {a: i for i, a in enumerate(AMINO_ACIDS)}\<close>\<close>

definition AMINO_ACID_IDS :: "(string, int) dict" where
  "AMINO_ACID_IDS = dict_of_items (zip AMINO_ACIDS (map int [0..<length AMINO_ACIDS]))"

section \<open>The peptide encoder\<close>

text \<open>
  An encoded peptide is a NumPy array of \<^verbatim>\<open>uint16\<close>. Storing a Python integer in such an
  array keeps its low 16 bits (NumPy 1.x casts as C does).
\<close>

type_synonym ndarray = "16 word list"

definition to_uint16 :: "int \<Rightarrow> 16 word" where
  "to_uint16 i = word_of_int i"

text \<open>
  \<^verbatim>\<open>
  def encode_peptide(peptide: str) -> np.array:
      peptide = peptide.upper().replace("L", "I")
      if len(peptide) > 100:
          raise exceptions.InvalidPeptideError(
              "Peptide sequence cannot be longer than 100 amino acids.")
      elif len(peptide) < 4:
          raise exceptions.InvalidPeptideError(
              "Peptide sequence cannot be shorter than 4 amino acids.")
      try:
          encoded_peptide = np.array(
              [0] + [AMINO_ACID_IDS[x] for x in peptide] + [0], dtype=np.uint16)
      except KeyError:
          raise exceptions.InvalidAminoAcidError(
              f"Unsupported amino acid found in peptide `{peptide}`")
      return encoded_peptide
  \<close>
  \<open>those\<close> is \<open>None\<close> as soon as one lookup fails, which is the KeyError of the
  comprehension.
\<close>

definition fold_peptide :: "string \<Rightarrow> string" where
  "fold_peptide peptide = py_replace CHR ''L'' CHR ''I'' (py_upper peptide)"

definition encode_peptide :: "string \<Rightarrow> error + ndarray" where
  "encode_peptide peptide =
     (let peptide = fold_peptide peptide in
      if length peptide > 100
      then Inl (InvalidPeptideError ''Peptide sequence cannot be longer than 100 amino acids.'')
      else if length peptide < 4
      then Inl (InvalidPeptideError ''Peptide sequence cannot be shorter than 4 amino acids.'')
      else (case those (map (\<lambda>x. dict_get AMINO_ACID_IDS [x]) peptide) of
              None \<Rightarrow> Inl (InvalidAminoAcidError
                         (''Unsupported amino acid found in peptide `'' @ peptide @ ''`''))
            | Some ids \<Rightarrow> Inr (map to_uint16 ([0] @ ids @ [0]))))"

section \<open>The modification applicator\<close>

text \<open>
  NumPy arrays are mutable objects that the caller and the callee share by reference.
  The heap is the list of all arrays allocated so far and a reference is an index into
  it; \<^verbatim>\<open>np.copy\<close> and \<^verbatim>\<open>np.array\<close> allocate a new array at the end of the heap.
\<close>

type_synonym heap = "ndarray list"
type_synonym ref = nat

definition np_copy :: "heap \<Rightarrow> ref \<Rightarrow> heap \<times> ref" where
  "np_copy h r = (h @ [h ! r], length h)"

text \<open>
  \<^verbatim>\<open>a[location] = value\<close> for a Python integer \<open>location\<close>: a negative index counts
  from the end, an index outside \<open>-len(a) .. len(a) - 1\<close> raises IndexError.
\<close>

definition np_setitem :: "ndarray \<Rightarrow> int \<Rightarrow> int \<Rightarrow> error + ndarray" where
  "np_setitem a location v =
     (let n = int (length a) in
      if - n \<le> location \<and> location < n
      then Inr (a[nat (if location < 0 then location + n else location) := to_uint16 v])
      else Inl (IndexError ''index out of bounds''))"

text \<open>
  The loop of \<^verbatim>\<open>apply_modifications\<close> over the split modification string, two tokens at
  a time, writing into the copy. It returns the copy as the loop left it, and the
  exception that ended the loop, if any.
  \<^verbatim>\<open>
  for i in range(0, len(mods_split), 2):
      location = int(mods_split[i])
      name = mods_split[i + 1]
      if name in ptm_ids:
          encoded_peptidoform[location] = ptm_ids[name]
      else:
          raise exceptions.UnknownModificationError(name)
  \<close>
\<close>

fun write_modifications :: "(string, int) dict \<Rightarrow> string list \<Rightarrow> ndarray \<Rightarrow> ndarray \<times> error option" where
  "write_modifications ptm_ids [] a = (a, None)"
| "write_modifications ptm_ids [loc] a =
     (case py_int loc of
        None \<Rightarrow> (a, Some (ValueError (''invalid literal for int() with base 10: '' @ loc)))
      | Some location \<Rightarrow> (a, Some (IndexError ''list index out of range'')))"
| "write_modifications ptm_ids (loc # name # rest) a =
     (case py_int loc of
        None \<Rightarrow> (a, Some (ValueError (''invalid literal for int() with base 10: '' @ loc)))
      | Some location \<Rightarrow>
          (case dict_get ptm_ids name of
             None \<Rightarrow> (a, Some (UnknownModificationError name))
           | Some v \<Rightarrow>
               (case np_setitem a location v of
                  Inl e \<Rightarrow> (a, Some e)
                | Inr a' \<Rightarrow> write_modifications ptm_ids rest a')))"

text \<open>
  \<^verbatim>\<open>
  def apply_modifications(encoded_peptide, modifications, ptm_ids):
      if modifications and modifications != "-":
          encoded_peptidoform = np.copy(encoded_peptide)  # Prevent inplace editing!
          mods_split = modifications.split("|")
          if len(mods_split) % 2 != 0:
              raise exceptions.InvalidModificationFormattingError(modifications)
          for i in range(0, len(mods_split), 2):
              ...
          return encoded_peptidoform
      else:
          return encoded_peptide
  \<close>
  The function takes the heap and the reference to the caller's array; it returns the
  heap after the call and either the exception raised or the reference returned.
\<close>

definition apply_modifications ::
    "heap \<Rightarrow> ref \<Rightarrow> string \<Rightarrow> (string, int) dict \<Rightarrow> heap \<times> (error + ref)" where
  "apply_modifications h encoded_peptide mods ptm_ids =
     (if mods \<noteq> [] \<and> mods \<noteq> ''-''
      then (let (h1, encoded_peptidoform) = np_copy h encoded_peptide;
                mods_split = py_split CHR ''|'' mods
            in if length mods_split mod 2 \<noteq> 0
               then (h1, Inl (InvalidModificationFormattingError mods))
               else (case write_modifications ptm_ids mods_split (h1 ! encoded_peptidoform) of
                       (a, Some e) \<Rightarrow> (h1[encoded_peptidoform := a], Inl e)
                     | (a, None) \<Rightarrow> (h1[encoded_peptidoform := a], Inr encoded_peptidoform)))
      else (h, Inr encoded_peptide))"

text \<open>
  The sibling in \<^verbatim>\<open>predict_xgboost.py\<close>, which the batch predictor calls. It always works
  on a fresh array, and in its loop the name is looked up before the position is parsed
  (the right-hand side of the assignment is evaluated first). The source's variable
  \<^verbatim>\<open>tl\<close> is \<open>tl_i\<close> here.
  \<^verbatim>\<open>
  def apply_mods(peptide, mods, PTMmap):
      modpeptide = np.array(peptide[:], dtype=np.uint16)
      if mods != "-":
          l = mods.split("|")
          if len(l) % 2 != 0:
              raise InvalidModificationFormattingError(mods)
          for i in range(0, len(l), 2):
              tl = l[i + 1]
              if tl in PTMmap:
                  modpeptide[int(l[i])] = PTMmap[tl]
              else:
                  raise UnknownModificationError(tl)
      return modpeptide
  \<close>
\<close>

fun write_mods :: "(string, int) dict \<Rightarrow> string list \<Rightarrow> ndarray \<Rightarrow> ndarray \<times> error option" where
  "write_mods PTMmap [] a = (a, None)"
| "write_mods PTMmap [loc] a = (a, Some (IndexError ''list index out of range''))"
| "write_mods PTMmap (loc # tl_i # rest) a =
     (case dict_get PTMmap tl_i of
        None \<Rightarrow> (a, Some (UnknownModificationError tl_i))
      | Some v \<Rightarrow>
          (case py_int loc of
             None \<Rightarrow> (a, Some (ValueError (''invalid literal for int() with base 10: '' @ loc)))
           | Some location \<Rightarrow>
               (case np_setitem a location v of
                  Inl e \<Rightarrow> (a, Some e)
                | Inr a' \<Rightarrow> write_mods PTMmap rest a')))"

definition apply_mods ::
    "heap \<Rightarrow> ref \<Rightarrow> string \<Rightarrow> (string, int) dict \<Rightarrow> heap \<times> (error + ref)" where
  "apply_mods h peptide mods PTMmap =
     (let (h1, modpeptide) = np_copy h peptide in
      if mods \<noteq> ''-''
      then (let l = py_split CHR ''|'' mods
            in if length l mod 2 \<noteq> 0
               then (h1, Inl (InvalidModificationFormattingError mods))
               else (case write_mods PTMmap l (h1 ! modpeptide) of
                       (a, Some e) \<Rightarrow> (h1[modpeptide := a], Inl e)
                     | (a, None) \<Rightarrow> (h1[modpeptide := a], Inr modpeptide)))
      else (h1, Inr modpeptide))"

section \<open>The modification registry (\<^verbatim>\<open>class Modifications\<close>)\<close>

text \<open>
  Python floats are not modelled bit by bit. The float operations the registry and the
  mass calculation use are parameters, gathered in an environment over an abstract type
  \<open>'f\<close> of floats:
  \<^item> \<^verbatim>\<open>float(s)\<close> for a string, which raises ValueError (\<open>None\<close>) on a malformed one;
  \<^item> the conversion of a Python integer to a float in mixed arithmetic, which raises
    OverflowError (\<open>None\<close>) on an integer beyond the range of a double;
  \<^item> the float \<open>0.0\<close> that the integer 0 converts to, float addition, multiplication
    and true division;
  \<^item> the constant \<^verbatim>\<open>PROTON_MASS = 1.007825032070059\<close>;
  \<^item> \<^verbatim>\<open>pyteomics.mass.fast_mass\<close>, a function of another package.
\<close>

record 'f py_env =
  float_of_str :: "string \<Rightarrow> 'f option"
  float_of_int :: "int \<Rightarrow> 'f option"
  float_zero :: 'f
  float_add :: "'f \<Rightarrow> 'f \<Rightarrow> 'f"
  float_mul :: "'f \<Rightarrow> 'f \<Rightarrow> 'f"
  float_div :: "'f \<Rightarrow> 'f \<Rightarrow> 'f"
  PROTON_MASS :: 'f
  fast_mass :: "string \<Rightarrow> error + 'f"

text \<open>
  One entry of a category: the dict the registration stores under the modification's
  name.
\<close>

record 'f modification =
  mass_shift :: 'f
  amino_acid :: string
  amino_acid_id :: int
  mod_id :: int

text \<open>
  The object's attributes: \<^verbatim>\<open>self.modifications\<close>, a dict from category to a dict from
  name to entry; the caches \<^verbatim>\<open>self._mass_shifts\<close> and \<^verbatim>\<open>self._ptm_ids\<close>, which are
  \<^verbatim>\<open>None\<close> or a dict; and the counter \<^verbatim>\<open>self._next_mod_id\<close>.
\<close>

record 'f Modifications =
  modifications :: "(string, (string, 'f modification) dict) dict"
  mass_shifts_cache :: "(string, 'f) dict option"
  ptm_ids_cache :: "(string, int) dict option"
  next_mod_id :: int

text \<open>
  \<^verbatim>\<open>
  def __init__(self):
      self.modifications = {"ptm": {}, "sptm": {}}
      self._mass_shifts = None
      self._ptm_ids = None
      self._next_mod_id = 38  # Omega compatibility (mutations)
  \<close>
\<close>

definition Modifications_init :: "'f Modifications" where
  "Modifications_init =
     \<lparr>modifications = [(''ptm'', []), (''sptm'', [])],
      mass_shifts_cache = None,
      ptm_ids_cache = None,
      next_mod_id = 38\<rparr>"

text \<open>
  The chain of \<^verbatim>\<open>if\<close>/\<^verbatim>\<open>elif\<close> that resolves the target of a modification string:
  \<^verbatim>\<open>
  if amino_acid == "N-term":   amino_acid_id = -1
  elif amino_acid == "C-term": amino_acid_id = -2
  elif amino_acid == "L":      amino_acid_id = AMINO_ACID_IDS["I"]
  elif amino_acid in AMINO_ACID_IDS: amino_acid_id = AMINO_ACID_IDS[amino_acid]
  else: raise exceptions.InvalidAminoAcidError(amino_acid)
  \<close>
\<close>

definition resolve_amino_acid :: "string \<Rightarrow> error + int" where
  "resolve_amino_acid aa =
     (if aa = ''N-term'' then Inr (- 1)
      else if aa = ''C-term'' then Inr (- 2)
      else if aa = ''L'' then
        (case dict_get AMINO_ACID_IDS ''I'' of Some i \<Rightarrow> Inr i | None \<Rightarrow> Inl (KeyError ''I''))
      else (case dict_get AMINO_ACID_IDS aa of
              Some i \<Rightarrow> Inr i
            | None \<Rightarrow> Inl (InvalidAminoAcidError aa)))"

text \<open>
  The body of the loop of \<^verbatim>\<open>add_from_ms2pip_modstrings\<close>, for one modification string
  (\<open>modtype\<close> is the parameter \<^verbatim>\<open>mod_type\<close>, \<open>md\<close> the loop variable \<^verbatim>\<open>mod\<close>).
  The right-hand side of the assignment, with \<^verbatim>\<open>float(mass_shift)\<close>, is evaluated before
  the category is looked up. An exception leaves the object as the loop has changed it
  so far.
  \<^verbatim>\<open>
  mod_name, mass_shift, opt, amino_acid = mod.split(",")
  ... (the chain above)
  self.modifications[mod_type][mod_name] = {
      "mass_shift": float(mass_shift),
      "amino_acid": amino_acid,
      "amino_acid_id": amino_acid_id,
      "mod_id": self._next_mod_id,
  }
  self._next_mod_id += 1
  \<close>
\<close>

definition add_modstring ::
    "'f py_env \<Rightarrow> string \<Rightarrow> 'f Modifications \<Rightarrow> string \<Rightarrow> 'f Modifications \<times> error option" where
  "add_modstring env modtype self md =
     (case py_split CHR '','' md of
        [mod_name, mass_shift_str, opt, aa] \<Rightarrow>
          (case resolve_amino_acid aa of
             Inl e \<Rightarrow> (self, Some e)
           | Inr aa_id \<Rightarrow>
               (case float_of_str env mass_shift_str of
                  None \<Rightarrow> (self, Some (ValueError (''could not convert string to float: '' @ mass_shift_str)))
                | Some shift \<Rightarrow>
                    (case dict_get (modifications self) modtype of
                       None \<Rightarrow> (self, Some (KeyError modtype))
                     | Some category \<Rightarrow>
                         (self\<lparr>modifications :=
                                  dict_set (modifications self) modtype
                                    (dict_set category mod_name
                                       \<lparr>mass_shift = shift, amino_acid = aa,
                                        amino_acid_id = aa_id, mod_id = next_mod_id self\<rparr>),
                                next_mod_id := next_mod_id self + 1\<rparr>,
                          None))))
      | _ \<Rightarrow> (self, Some (ValueError ''wrong number of values to unpack (expected 4)'')))"

fun add_modstrings ::
    "'f py_env \<Rightarrow> string \<Rightarrow> 'f Modifications \<Rightarrow> string list \<Rightarrow> 'f Modifications \<times> error option" where
  "add_modstrings env modtype self [] = (self, None)"
| "add_modstrings env modtype self (md # modstrings) =
     (case add_modstring env modtype self md of
        (self1, Some e) \<Rightarrow> (self1, Some e)
      | (self1, None) \<Rightarrow> add_modstrings env modtype self1 modstrings)"

text \<open>
  \<^verbatim>\<open>
  def add_from_ms2pip_modstrings(self, modstrings, mod_type="ptm"):
      if mod_type not in self.modifications:
          self.modifications[mod_type] = {}
      for mod in modstrings:
          ...
      self._mass_shifts = None
  \<close>
  The last statement resets \<^verbatim>\<open>_mass_shifts\<close> only; \<^verbatim>\<open>_ptm_ids\<close> is not assigned
  anywhere in the method. The result is the object after the call and the exception
  raised, if any.
\<close>

definition add_from_ms2pip_modstrings ::
    "'f py_env \<Rightarrow> 'f Modifications \<Rightarrow> string list \<Rightarrow> string \<Rightarrow> 'f Modifications \<times> error option" where
  "add_from_ms2pip_modstrings env self modstrings modtype =
     (let self0 = (if dict_get (modifications self) modtype = None
                   then self\<lparr>modifications := dict_set (modifications self) modtype []\<rparr>
                   else self)
      in case add_modstrings env modtype self0 modstrings of
           (self1, Some e) \<Rightarrow> (self1, Some e)
         | (self1, None) \<Rightarrow> (self1\<lparr>mass_shifts_cache := None\<rparr>, None))"

text \<open>
  \<^verbatim>\<open>
  @property
  def _all_modifications(self):
      return itertools.chain.from_iterable(
          (mods.items() for mods in self.modifications.values()))
  \<close>
\<close>

definition all_modifications :: "'f Modifications \<Rightarrow> (string \<times> 'f modification) list" where
  "all_modifications self = concat (map snd (modifications self))"

text \<open>
  The two properties. \<^verbatim>\<open>not self._mass_shifts\<close> holds for \<^verbatim>\<open>None\<close> and for the empty
  dict; then the cache is rebuilt from all categories and stored. Reading a property can
  change the object, so each returns the object with the value.
  \<^verbatim>\<open>
  @property
  def mass_shifts(self):
      if not self._mass_shifts:
          self._mass_shifts = {name: mod["mass_shift"] for name, mod in self._all_modifications}
      return self._mass_shifts

  @property
  def ptm_ids(self):
      if not self._ptm_ids:
          self._ptm_ids = {name: mod["mod_id"] for name, mod in self._all_modifications}
      return self._ptm_ids
  \<close>
\<close>

definition mass_shifts :: "'f Modifications \<Rightarrow> 'f Modifications \<times> (string, 'f) dict" where
  "mass_shifts self =
     (case mass_shifts_cache self of
        Some (x # d) \<Rightarrow> (self, x # d)
      | _ \<Rightarrow> (let d = dict_of_items (map (\<lambda>(name, m). (name, mass_shift m)) (all_modifications self))
              in (self\<lparr>mass_shifts_cache := Some d\<rparr>, d)))"

definition ptm_ids :: "'f Modifications \<Rightarrow> 'f Modifications \<times> (string, int) dict" where
  "ptm_ids self =
     (case ptm_ids_cache self of
        Some (x # d) \<Rightarrow> (self, x # d)
      | _ \<Rightarrow> (let d = dict_of_items (map (\<lambda>(name, m). (name, mod_id m)) (all_modifications self))
              in (self\<lparr>ptm_ids_cache := Some d\<rparr>, d)))"

text \<open>
  Vocabulary for the registry's properties: the numeric ids of all entries, in the
  order of \<^verbatim>\<open>_all_modifications\<close>; the numeric id stored for a name in one category;
  and the entry of a name in the last category, in the order of the dict
  \<^verbatim>\<open>self.modifications\<close>, that has the name.
\<close>

definition mod_ids_of :: "'f Modifications \<Rightarrow> int list" where
  "mod_ids_of self = map (\<lambda>(name, m). mod_id m) (all_modifications self)"

definition entry_id :: "'f Modifications \<Rightarrow> string \<Rightarrow> string \<Rightarrow> int option" where
  "entry_id self modtype name =
     (case dict_get (modifications self) modtype of
        None \<Rightarrow> None
      | Some category \<Rightarrow> map_option mod_id (dict_get category name))"

definition last_definition :: "'f Modifications \<Rightarrow> string \<Rightarrow> 'f modification option" where
  "last_definition self name =
     (case rev (filter (\<lambda>(c, d). dict_get d name \<noteq> None) (modifications self)) of
        [] \<Rightarrow> None
      | (c, d) # _ \<Rightarrow> dict_get d name)"

text \<open>
  The registries a program can build: a fresh one, and what registrations (also those
  that raise) and reads of the two properties make of it.
\<close>

inductive reachable :: "'f py_env \<Rightarrow> 'f Modifications \<Rightarrow> bool" for env :: "'f py_env" where
  fresh: "reachable env Modifications_init"
| registered: "reachable env self \<Longrightarrow>
     reachable env (fst (add_from_ms2pip_modstrings env self modstrings modtype))"
| read_mass_shifts: "reachable env self \<Longrightarrow> reachable env (fst (mass_shifts self))"
| read_ptm_ids: "reachable env self \<Longrightarrow> reachable env (fst (ptm_ids self))"

text \<open>
  The invariant of the registry: the counter is at least 38; the numeric ids of all
  entries are pairwise distinct, at least 38 and below the counter; every category has
  distinct names; and the first two categories are \<^verbatim>\<open>ptm\<close> and \<^verbatim>\<open>sptm\<close>.
\<close>

definition registry_inv :: "'f Modifications \<Rightarrow> bool" where
  "registry_inv self =
     (38 \<le> next_mod_id self
      \<and> distinct (mod_ids_of self)
      \<and> list_all (\<lambda>i. 38 \<le> i \<and> i < next_mod_id self) (mod_ids_of self)
      \<and> list_all (\<lambda>(c, d). distinct (map fst d)) (modifications self)
      \<and> take 2 (map fst (modifications self)) = [''ptm'', ''sptm''])"

section \<open>The mass calculator\<close>

text \<open>The slice \<^verbatim>\<open>[1::2]\<close>: the elements at the odd positions.\<close>

fun odd_items :: "'a list \<Rightarrow> 'a list" where
  "odd_items (x # y # rest) = y # odd_items rest"
| "odd_items _ = []"

text \<open>
  The comprehension \<^verbatim>\<open>[self.mass_shifts[mod] for mod in ...]\<close>: every element reads the
  property and indexes the dict; a missing key raises KeyError.
\<close>

fun lookup_mass_shifts ::
    "'f Modifications \<Rightarrow> string list \<Rightarrow> 'f Modifications \<times> (error + 'f list)" where
  "lookup_mass_shifts self [] = (self, Inr [])"
| "lookup_mass_shifts self (name # names) =
     (let (self1, d) = mass_shifts self in
      case dict_get d name of
        None \<Rightarrow> (self1, Inl (KeyError name))
      | Some shift \<Rightarrow>
          (case lookup_mass_shifts self1 names of
             (self2, Inl e) \<Rightarrow> (self2, Inl e)
           | (self2, Inr shifts) \<Rightarrow> (self2, Inr (shift # shifts))))"

text \<open>
  \<^verbatim>\<open>
  def calc_precursor_mz(self, peptide, modifications, charge):
      charge = int(charge)
      unmodified_mass = mass.fast_mass(peptide)
      mods_massses = sum([self.mass_shifts[mod] for mod in modifications.split("|")[1::2]])
      prec_mass = unmodified_mass + mods_massses
      prec_mz = (prec_mass + charge * PROTON_MASS) / charge
      return prec_mass, prec_mz
  \<close>
  The charge is a Python integer, on which \<^verbatim>\<open>int\<close> is the identity. \<^verbatim>\<open>sum\<close> adds from
  the left, starting at the integer 0. Dividing a float by the integer 0 raises
  ZeroDivisionError.
\<close>

definition calc_precursor_mz ::
    "'f py_env \<Rightarrow> 'f Modifications \<Rightarrow> string \<Rightarrow> string \<Rightarrow> int
       \<Rightarrow> 'f Modifications \<times> (error + 'f \<times> 'f)" where
  "calc_precursor_mz env self peptide mods charge =
     (case fast_mass env peptide of
        Inl e \<Rightarrow> (self, Inl e)
      | Inr unmodified_mass \<Rightarrow>
          (case lookup_mass_shifts self (odd_items (py_split CHR ''|'' mods)) of
             (self1, Inl e) \<Rightarrow> (self1, Inl e)
           | (self1, Inr shifts) \<Rightarrow>
               (let mods_massses = foldl (float_add env) (float_zero env) shifts;
                    prec_mass = float_add env unmodified_mass mods_massses
                in case float_of_int env charge of
                     None \<Rightarrow> (self1, Inl (OverflowError ''int too large to convert to float''))
                   | Some c \<Rightarrow>
                       if charge = 0
                       then (self1, Inl (ZeroDivisionError ''float division by zero''))
                       else (self1, Inr (prec_mass,
                               float_div env
                                 (float_add env prec_mass (float_mul env c (PROTON_MASS env))) c)))))"

text \<open>
  An environment to run the model in: a float is the term that computes it, built from
  decimal literals, converted integers, the masses \<^verbatim>\<open>fast_mass\<close> returns and the three
  operations. \<^verbatim>\<open>float\<close> accepts the plain decimal literals here.
\<close>

datatype pyfloat =
    FLit string
  | FInt int
  | FMass string
  | FAdd pyfloat pyfloat
  | FMul pyfloat pyfloat
  | FDiv pyfloat pyfloat

definition is_decimal_literal :: "string \<Rightarrow> bool" where
  "is_decimal_literal s =
     (list_all (\<lambda>c. c \<in> set ''0123456789.'') s
      \<and> length (filter (\<lambda>c. c = CHR ''.'') s) \<le> 1
      \<and> filter (\<lambda>c. c \<noteq> CHR ''.'') s \<noteq> [])"

definition symbolic_env :: "pyfloat py_env" where
  "symbolic_env =
     \<lparr>float_of_str = (\<lambda>s. if is_decimal_literal s then Some (FLit s) else None),
      float_of_int = (\<lambda>i. Some (FInt i)),
      float_zero = FInt 0,
      float_add = FAdd,
      float_mul = FMul,
      float_div = FDiv,
      PROTON_MASS = FLit ''1.007825032070059'',
      fast_mass = (\<lambda>p. Inr (FMass p))\<rparr>"

section \<open>Model artifacts (\<^verbatim>\<open>predict_xgboost.py\<close>)\<close>

text \<open>
  The file system as the functions see it: which paths are directories, and the bytes of
  the regular files. \<^verbatim>\<open>os.path.join\<close> for two POSIX path components.
\<close>

record file_system =
  isdir :: "string \<Rightarrow> bool"
  file_bytes :: "string \<Rightarrow> string option"

definition os_path_join :: "string \<Rightarrow> string \<Rightarrow> string" where
  "os_path_join a b =
     (case b of
        c # _ \<Rightarrow> if c = CHR ''/'' then b
                 else if a = [] \<or> last a = CHR ''/'' then a @ b else a @ ''/'' @ b
      | [] \<Rightarrow> if a = [] \<or> last a = CHR ''/'' then a else a @ ''/'')"

definition MODEL_hashes :: "(string, string) dict" where
  "MODEL_hashes =
     [(''model_20210316_Immuno_HCD_B.xgboost'', ''977466d378de2e89c6ae15b4de8f07800d17a7b7''),
      (''model_20210316_Immuno_HCD_Y.xgboost'', ''71948e1b9d6c69cb69b9baf84d361a9f80986fea''),
      (''model_20210416_HCD2021_B.xgboost'', ''c086c599f618b199bbb36e2411701fb2866b24c8''),
      (''model_20210416_HCD2021_Y.xgboost'', ''22a5a137e29e69fa6d4320ed7d701b61cbdc4fcf'')]"

text \<open>\<^verbatim>\<open>filename.rsplit("/", 1)[1]\<close>: the part after the last slash; IndexError without one.\<close>

definition rsplit_slash_1 :: "string \<Rightarrow> string option" where
  "rsplit_slash_1 filename =
     (if CHR ''/'' \<in> set filename then Some (last (py_split CHR ''/'' filename)) else None)"

text \<open>
  The reading loop of \<^verbatim>\<open>check_model_integrity\<close>, which is to return the hex digest:
  \<^verbatim>\<open>
  with open(filename, "rb") as modelfile:
      while True:
          chunk = f.read(16 * 1024)
          if not chunk:
              break
          sha1_hash.update(chunk)
  \<close>
  The open file is bound to \<^verbatim>\<open>modelfile\<close>. The first statement of the loop evaluates the
  name \<^verbatim>\<open>f\<close>, which is bound neither in the function nor in the module nor among the
  built-ins, so it raises NameError (carrying the name) before a byte is read.
\<close>

definition read_and_hash :: "string \<Rightarrow> error + string" where
  "read_and_hash modelfile = Inl (NameError ''f'')"

text \<open>
  \<^verbatim>\<open>
  def check_model_integrity(filename):
      MODEL_hashes = {...}
      model = filename.rsplit("/", 1)[1]
      sha1_hash = hashlib.sha1()
      with open(filename, "rb") as modelfile:
          ... (the loop above)
      if sha1_hash.hexdigest() != MODEL_hashes[model]:
          raise InvalidXGBoostModelError()
      else:
          return True
  \<close>
\<close>

definition check_model_integrity :: "file_system \<Rightarrow> string \<Rightarrow> error + bool" where
  "check_model_integrity fs filename =
     (case rsplit_slash_1 filename of
        None \<Rightarrow> Inl (IndexError ''list index out of range'')
      | Some model \<Rightarrow>
          (case file_bytes fs filename of
             None \<Rightarrow> Inl (FileNotFoundError filename)
           | Some modelfile \<Rightarrow>
               (case read_and_hash modelfile of
                  Inl e \<Rightarrow> Inl e
                | Inr hexdigest \<Rightarrow>
                    (case dict_get MODEL_hashes model of
                       None \<Rightarrow> Inl (KeyError model)
                     | Some expected \<Rightarrow>
                         if hexdigest \<noteq> expected then Inl InvalidXGBoostModelError
                         else Inr True))))"

text \<open>
  \<^verbatim>\<open>
  def check_model_presence(model):
      home = os.path.expanduser("~")
      if not os.path.isdir(os.path.join(home, ".ms2pip")):
          return False
      elif not os.path.isfile(os.path.join(home, ".ms2pip", model)):
          return False
      elif check_model_integrity(os.path.join(home, ".ms2pip", model)):
          return True
      else:
          raise UnknownFragmentationMethodError()
  \<close>
  The home directory is a parameter.
\<close>

definition check_model_presence :: "file_system \<Rightarrow> string \<Rightarrow> string \<Rightarrow> error + bool" where
  "check_model_presence fs home model =
     (if \<not> isdir fs (os_path_join home ''.ms2pip'') then Inr False
      else if file_bytes fs (os_path_join (os_path_join home ''.ms2pip'') model) = None then Inr False
      else (case check_model_integrity fs (os_path_join (os_path_join home ''.ms2pip'') model) of
              Inl e \<Rightarrow> Inl e
            | Inr ok \<Rightarrow> if ok then Inr True else Inl UnknownFragmentationMethodError))"

section \<open>Concrete registries and files\<close>

text \<open>
  Registries built in the environment above, for running the model: Oxidation registered
  as a \<^verbatim>\<open>ptm\<close>; the same after both properties have been read; Acetyl registered after
  that read; the two modifications of the docstring registered in one call; and the name
  Oxidation registered first as an \<^verbatim>\<open>sptm\<close> and then, with another mass shift, as a
  \<^verbatim>\<open>ptm\<close>.
\<close>

definition oxidation_registry :: "pyfloat Modifications" where
  "oxidation_registry =
     fst (add_from_ms2pip_modstrings symbolic_env Modifications_init
            [''Oxidation,15.994915,opt,M''] ''ptm'')"

definition oxidation_registry_read :: "pyfloat Modifications" where
  "oxidation_registry_read = fst (ptm_ids (fst (mass_shifts oxidation_registry)))"

definition acetyl_registry :: "pyfloat Modifications" where
  "acetyl_registry =
     fst (add_from_ms2pip_modstrings symbolic_env oxidation_registry_read
            [''Acetyl,42.010565,opt,N-term''] ''ptm'')"

definition docstring_registry :: "pyfloat Modifications" where
  "docstring_registry =
     fst (add_from_ms2pip_modstrings symbolic_env Modifications_init
            [''Oxidation,15.994915,opt,M'', ''Acetyl,42.010565,opt,N-term''] ''ptm'')"

definition sptm_first_registry :: "pyfloat Modifications" where
  "sptm_first_registry =
     fst (add_from_ms2pip_modstrings symbolic_env
            (fst (add_from_ms2pip_modstrings symbolic_env Modifications_init
                    [''Oxidation,15.994915,opt,M''] ''sptm''))
            [''Oxidation,31.98983,opt,M''] ''ptm'')"

text \<open>
  A file system whose cache directory holds a file under the name of a known model,
  with bytes that are not the model's.
\<close>

definition corrupt_model_fs :: file_system where
  "corrupt_model_fs =
     \<lparr>isdir = (\<lambda>p. p = ''/home/user/.ms2pip''),
      file_bytes = (\<lambda>p. if p = ''/home/user/.ms2pip/model_20210316_Immuno_HCD_B.xgboost''
                         then Some ''corrupt'' else None)\<rparr>"

section \<open>Properties of the reshaping helper\<close>

lemma split_list_by_lengths_Cons:
  "0 \<le> n \<Longrightarrow> n \<le> sys_maxsize \<Longrightarrow>
   split_list_by_lengths xs (n # ns) =
     (case split_list_by_lengths (drop (nat n) xs) ns of
        Inl e \<Rightarrow> Inl e
      | Inr gs \<Rightarrow> Inr (take (nat n) xs # gs))"
  by (simp add: islice_def)

lemma split_list_by_lengths_groups:
  "valid_stops lengths \<Longrightarrow>
   split_list_by_lengths xs lengths =
     Inr (map (\<lambda>i. take (nat (lengths ! i)) (drop (group_offset lengths i) xs))
            [0..<length lengths])"
proof (induction lengths arbitrary: xs)
  case Nil
  then show ?case by simp
next
  case (Cons n ns)
  from Cons.prems have n: "0 \<le> n" "n \<le> sys_maxsize" and ns: "valid_stops ns"
    by (simp_all add: valid_stops_def)
  have off: "group_offset (n # ns) (Suc i) = nat n + group_offset ns i" if "i < length ns" for i
  proof -
    from ns have "0 \<le> sum_list (take i ns)"
      by (intro sum_list_nonneg) (auto simp: valid_stops_def list_all_iff dest: in_set_takeD)
    with n show ?thesis by (simp add: group_offset_def nat_add_distrib)
  qed
  have shift: "map (\<lambda>i. take (nat ((n # ns) ! i)) (drop (group_offset (n # ns) i) xs))
                 (map Suc [0..<length ns])
             = map (\<lambda>i. take (nat (ns ! i)) (drop (group_offset ns i) (drop (nat n) xs)))
                 [0..<length ns]"
    by (simp add: off add.commute)
  have "[0..<length (n # ns)] = 0 # map Suc [0..<length ns]"
    unfolding map_Suc_upt by (simp add: upt_conv_Cons del: upt_Suc)
  then have groups: "map (\<lambda>i. take (nat ((n # ns) ! i)) (drop (group_offset (n # ns) i) xs))
               [0..<length (n # ns)]
           = take (nat n) xs
             # map (\<lambda>i. take (nat (ns ! i)) (drop (group_offset ns i) (drop (nat n) xs)))
                 [0..<length ns]"
    using shift by (simp only: list.map nth_Cons_0 group_offset_def take_0 sum_list.Nil nat_0 drop_0)
  have "split_list_by_lengths xs (n # ns)
          = Inr (take (nat n) xs
             # map (\<lambda>i. take (nat (ns ! i)) (drop (group_offset ns i) (drop (nat n) xs)))
                 [0..<length ns])"
    using Cons.IH [OF ns, of "drop (nat n) xs"] n by (simp add: islice_def)
  then show ?case by (simp only: groups)
qed

lemma valid_stops_prefix_le:
  assumes "valid_stops ls" "i < length ls"
  shows "0 \<le> sum_list (take i ls) \<and> 0 \<le> ls ! i \<and> sum_list (take i ls) + ls ! i \<le> sum_list ls"
proof -
  from assms(1) have nn: "\<And>x. x \<in> set ls \<Longrightarrow> 0 \<le> x"
    by (simp add: valid_stops_def list_all_iff)
  have a: "0 \<le> sum_list (take i ls)"
    by (rule sum_list_nonneg) (auto dest: in_set_takeD nn)
  have b: "0 \<le> sum_list (drop (Suc i) ls)"
    by (rule sum_list_nonneg) (auto dest: in_set_dropD nn)
  have c: "0 \<le> ls ! i" using assms(2) nn by simp
  have "sum_list ls = sum_list (take (Suc i) ls) + sum_list (drop (Suc i) ls)"
    by (metis append_take_drop_id sum_list_append)
  also have "take (Suc i) ls = take i ls @ [ls ! i]"
    using assms(2) by (simp add: take_Suc_conv_app_nth)
  finally show ?thesis using a b c by simp
qed

lemma split_list_by_lengths_concat:
  "valid_stops ls \<Longrightarrow> split_list_by_lengths xs ls = Inr gs \<Longrightarrow>
   concat gs = take (nat (sum_list ls)) xs"
proof (induction ls arbitrary: xs gs)
  case Nil
  then show ?case by simp
next
  case (Cons n ns)
  from Cons.prems(1) have n: "0 \<le> n" "n \<le> sys_maxsize" and ns: "valid_stops ns"
    by (simp_all add: valid_stops_def)
  from ns have s: "0 \<le> sum_list ns"
    by (intro sum_list_nonneg) (simp add: valid_stops_def list_all_iff)
  from Cons.prems(2) n obtain gs' where
    gs': "split_list_by_lengths (drop (nat n) xs) ns = Inr gs'" and gs: "gs = take (nat n) xs # gs'"
    by (auto simp: islice_def split: sum.splits)
  have "concat gs' = take (nat (sum_list ns)) (drop (nat n) xs)"
    by (rule Cons.IH [OF ns gs'])
  then show ?case
    using n s by (simp add: gs nat_add_distrib take_add)
qed


text \<open>A negative stop value is not a length: \<^verbatim>\<open>islice\<close> raises ValueError on it.\<close>

lemma split_list_by_lengths_negative:
  "n < 0 \<Longrightarrow> \<exists>msg. split_list_by_lengths xs (n # ns) = Inl (ValueError msg)"
  by (simp add: islice_def)

lemma split_list_by_lengths_slices:
  assumes "valid_stops lengths"
  shows "\<exists>gs. split_list_by_lengths xs lengths = Inr gs
           \<and> length gs = length lengths
           \<and> concat gs = take (nat (sum_list lengths)) xs
           \<and> (\<forall>i<length lengths.
                 gs ! i = take (nat (lengths ! i)) (drop (group_offset lengths i) xs)
               \<and> length (gs ! i) = min (nat (lengths ! i)) (length xs - group_offset lengths i))"
proof -
  let ?gs = "map (\<lambda>i. take (nat (lengths ! i)) (drop (group_offset lengths i) xs))
               [0..<length lengths]"
  have eq: "split_list_by_lengths xs lengths = Inr ?gs"
    by (rule split_list_by_lengths_groups [OF assms])
  have "concat ?gs = take (nat (sum_list lengths)) xs"
    by (rule split_list_by_lengths_concat [OF assms eq])
  with eq show ?thesis by (intro exI [of _ ?gs]) (simp add: min.commute)
qed

text \<open>
  Claim C10. \<^verbatim>\<open>_split_list_by_lengths\<close> never compares the requested lengths with the
  number of elements it is given. For every input list and every list of group lengths
  (integers that \<^verbatim>\<open>islice\<close> accepts as a stop value, from 0 to \<^verbatim>\<open>sys.maxsize\<close>) it
  returns a result, with exactly one group per requested length; group \<open>i\<close> is the
  contiguous slice that starts where the groups before it end, cut off at the end of the
  input. So with fewer elements than the lengths add up to, the later groups are shorter
  than requested or empty, and no error is raised.
\<close>

theorem split_list_by_lengths_no_length_check:
  assumes "valid_stops lengths"
  shows "\<exists>gs. split_list_by_lengths xs lengths = Inr gs
           \<and> length gs = length lengths
           \<and> concat gs = take (nat (sum_list lengths)) xs
           \<and> (\<forall>i<length lengths.
                 gs ! i = take (nat (lengths ! i)) (drop (group_offset lengths i) xs)
               \<and> length (gs ! i) = min (nat (lengths ! i)) (length xs - group_offset lengths i))"
  using assms by (rule split_list_by_lengths_slices)

text \<open>
  Three elements split by the lengths 2, 2, 2: the second group is short, the third empty.
\<close>

theorem split_list_by_lengths_no_length_check_witness:
  "valid_stops [2, 2, 2]
   \<and> (\<exists>gs. split_list_by_lengths [10, 20, 30 :: nat] [2, 2, 2] = Inr gs
          \<and> length gs = 3 \<and> gs ! 0 = [10, 20] \<and> gs ! 1 = [30] \<and> gs ! 2 = [])"
proof -
  have v: "valid_stops [2, 2, 2]"
    by (simp add: valid_stops_def sys_maxsize_def)
  from split_list_by_lengths_no_length_check [OF v, of "[10, 20, 30 :: nat]"]
  obtain gs where r: "split_list_by_lengths [10, 20, 30 :: nat] [2, 2, 2] = Inr gs"
    and l: "length gs = 3"
    and g: "\<And>i. i < 3 \<Longrightarrow> gs ! i = take (nat ([2, 2, 2] ! i)) (drop (group_offset [2, 2, 2] i) [10, 20, 30])"
    by auto
  have "gs ! 0 = [10, 20]" using g [of 0] by (simp add: group_offset_def)
  moreover have "gs ! 1 = [30]" using g [of 1] by (simp add: group_offset_def)
  moreover have "gs ! 2 = []" using g [of 2] by (simp add: group_offset_def)
  ultimately show ?thesis using v r l by simp
qed

lemma num_ions_valid:
  assumes "list_all (\<lambda>p. 1 \<le> length p \<and> int (length p) - 1 \<le> sys_maxsize) peptides"
  shows "valid_stops (num_ions peptides)"
  using assms by (auto simp: valid_stops_def num_ions_def list_all_iff)

text \<open>
  Claim C1. For a batch whose peptides are non-empty and whose flat prediction vector
  holds one value per cleavage site (the sum of \<open>peptide_length - 1\<close> over the records),
  the reshaping step returns one group per record, in record order, the groups being
  consecutive slices that together make up the whole vector, group \<open>i\<close> of size
  \<open>peptide_length - 1\<close>. For the ion types x, y and z every group is the reverse of its
  slice; for a, b and c it is the slice itself; any other ion type is rejected with
  the ValueError "Unsupported ion_type".
\<close>

theorem reshape_preds_orientation:
  assumes peps: "list_all (\<lambda>p. 1 \<le> length p \<and> int (length p) - 1 \<le> sys_maxsize) peptides"
      and len: "int (length preds) = sum_list (num_ions peptides)"
  shows "(ion_type \<in> set [''x'', ''y'', ''z''] \<longrightarrow>
            (\<exists>gs. reshape_preds ion_type preds (num_ions peptides) = Inr gs
               \<and> length gs = length peptides
               \<and> concat (map rev gs) = preds
               \<and> (\<forall>i<length peptides.
                     length (gs ! i) = length (peptides ! i) - 1
                   \<and> gs ! i = rev (take (length (peptides ! i) - 1)
                                    (drop (group_offset (num_ions peptides) i) preds)))))
       \<and> (ion_type \<in> set [''a'', ''b'', ''c''] \<longrightarrow>
            (\<exists>gs. reshape_preds ion_type preds (num_ions peptides) = Inr gs
               \<and> length gs = length peptides
               \<and> concat gs = preds
               \<and> (\<forall>i<length peptides.
                     length (gs ! i) = length (peptides ! i) - 1
                   \<and> gs ! i = take (length (peptides ! i) - 1)
                               (drop (group_offset (num_ions peptides) i) preds))))
       \<and> (ion_type \<notin> set [''x'', ''y'', ''z''] \<and> ion_type \<notin> set [''a'', ''b'', ''c''] \<longrightarrow>
            reshape_preds ion_type preds (num_ions peptides)
              = Inl (ValueError (''Unsupported ion_type: '' @ ion_type)))"
proof -
  let ?ns = "num_ions peptides"
  have v: "valid_stops ?ns" by (rule num_ions_valid [OF peps])
  from split_list_by_lengths_slices [OF v, of preds]
  obtain gs where r: "split_list_by_lengths preds ?ns = Inr gs"
    and l: "length gs = length ?ns"
    and c: "concat gs = take (nat (sum_list ?ns)) preds"
    and g: "\<And>i. i < length ?ns \<Longrightarrow>
              gs ! i = take (nat (?ns ! i)) (drop (group_offset ?ns i) preds)"
    by auto
  have l': "length gs = length peptides" using l by (simp add: num_ions_def)
  have c': "concat gs = preds" using c len [symmetric] by simp
  have n: "nat (?ns ! i) = length (peptides ! i) - 1" if "i < length peptides" for i
    using that by (simp add: num_ions_def)
  have gi: "gs ! i = take (length (peptides ! i) - 1) (drop (group_offset ?ns i) preds)"
    if "i < length peptides" for i
    using that g [of i] n [of i] by (simp add: num_ions_def)
  have li: "length (gs ! i) = length (peptides ! i) - 1" if "i < length peptides" for i
  proof -
    from that have i: "i < length ?ns" by (simp add: num_ions_def)
    from valid_stops_prefix_le [OF v i] len
    have "group_offset ?ns i + nat (?ns ! i) \<le> length preds"
      by (simp add: group_offset_def) linarith
    then show ?thesis using gi [OF that] n [OF that] by simp
  qed
  have cr: "concat (map rev (map rev gs)) = preds" using c' by (simp add: comp_def)
  show ?thesis
    using r l' c' cr gi li
    by (simp add: reshape_preds_def del: map_map)
qed

text \<open>
  Two records with peptide lengths 5 and 7 and the prediction vector 1, ..., 10: the
  groups have sizes 4 and 6; for y they are reversed.
\<close>

theorem reshape_preds_orientation_witness:
  "list_all (\<lambda>p. 1 \<le> length p \<and> int (length p) - 1 \<le> sys_maxsize) [''ACDEF'', ''GHIKMNP'']
   \<and> int (length [1, 2, 3, 4, 5, 6, 7, 8, 9, 10 :: nat]) = sum_list (num_ions [''ACDEF'', ''GHIKMNP''])
   \<and> (\<exists>gs. reshape_preds ''y'' [1, 2, 3, 4, 5, 6, 7, 8, 9, 10 :: nat]
                (num_ions [''ACDEF'', ''GHIKMNP'']) = Inr gs
          \<and> length gs = 2 \<and> gs ! 0 = [4, 3, 2, 1] \<and> gs ! 1 = [10, 9, 8, 7, 6, 5])"
proof -
  let ?peps = "[''ACDEF'', ''GHIKMNP'']"
  let ?preds = "[1, 2, 3, 4, 5, 6, 7, 8, 9, 10 :: nat]"
  have h1: "list_all (\<lambda>p. 1 \<le> length p \<and> int (length p) - 1 \<le> sys_maxsize) ?peps"
    by (simp add: sys_maxsize_def)
  have h2: "int (length ?preds) = sum_list (num_ions ?peps)"
    by (simp add: num_ions_def)
  have y: "''y'' \<in> set [''x'', ''y'', ''z'']" by simp
  from reshape_preds_orientation [OF h1 h2, of "''y''", THEN conjunct1, rule_format, OF y]
  obtain gs where r: "reshape_preds ''y'' ?preds (num_ions ?peps) = Inr gs"
    and l: "length gs = length ?peps"
    and g: "\<And>i. i < length ?peps \<Longrightarrow>
              gs ! i = rev (take (length (?peps ! i) - 1)
                             (drop (group_offset (num_ions ?peps) i) ?preds))"
    by blast
  have "gs ! 0 = [4, 3, 2, 1]"
    using g [of 0] by (simp add: group_offset_def num_ions_def)
  moreover have "gs ! 1 = [10, 9, 8, 7, 6, 5]"
    using g [of 1] by (simp add: group_offset_def num_ions_def)
  ultimately show ?thesis using h1 h2 r l by simp
qed

section \<open>Properties of the peptide encoder\<close>

lemma AMINO_ACID_IDS_unfold:
  "AMINO_ACID_IDS = [(''A'', 0), (''C'', 1), (''D'', 2), (''E'', 3), (''F'', 4), (''G'', 5),
     (''H'', 6), (''I'', 7), (''K'', 8), (''M'', 9), (''N'', 10), (''P'', 11), (''Q'', 12),
     (''R'', 13), (''S'', 14), (''T'', 15), (''V'', 16), (''W'', 17), (''Y'', 18)]"
  by (simp add: AMINO_ACID_IDS_def AMINO_ACIDS_def dict_of_items_def upt_conv_Cons del: upt_Suc)


lemma AMINO_ACID_IDS_dom:
  "(dict_get AMINO_ACID_IDS k \<noteq> None) = (k \<in> set AMINO_ACIDS)"
  by (auto simp: AMINO_ACID_IDS_unfold AMINO_ACIDS_def split: if_splits)


lemma those_map_None:
  "\<not> list_all (\<lambda>x. f x \<noteq> None) xs \<Longrightarrow> those (map f xs) = None"
  by (induction xs) (auto split: option.splits)

lemma length_fold_peptide: "length (fold_peptide p) = length p"
  by (simp add: fold_peptide_def py_replace_def py_upper_def)







text \<open>
  Claim C5, as stated: the InvalidAminoAcid error names the first unrecognised symbol.
  It does not: for \<^verbatim>\<open>ABZ_FOO\<close>, whose first unrecognised symbol is B, the exception's
  argument is a sentence that quotes the whole folded peptide.
\<close>

theorem encode_peptide_names_symbol_counterexample:
  "encode_peptide ''ABZ_FOO''
     = Inl (InvalidAminoAcidError ''Unsupported amino acid found in peptide `ABZ_FOO`'')
   \<and> encode_peptide ''ABZ_FOO'' \<noteq> Inl (InvalidAminoAcidError ''B'')"
  by (simp add: encode_peptide_def fold_peptide_def py_replace_def py_upper_def upper_char_def
        AMINO_ACID_IDS_unfold)

text \<open>
  Claim C5, amended. For every ASCII input, \<^verbatim>\<open>encode_peptide\<close> fails with
  InvalidPeptideError if the input is longer than 100 and if it is shorter than 4, and
  for a length-valid input with a character that is not a known amino acid after
  upper-casing and L-to-I folding it fails with InvalidAminoAcidError, whose message
  quotes the whole folded peptide.
\<close>

theorem encode_peptide_errors:
  assumes "is_ascii peptide"
  shows "(100 < length peptide \<longrightarrow>
      encode_peptide peptide
        = Inl (InvalidPeptideError ''Peptide sequence cannot be longer than 100 amino acids.''))
   \<and> (length peptide < 4 \<longrightarrow>
      encode_peptide peptide
        = Inl (InvalidPeptideError ''Peptide sequence cannot be shorter than 4 amino acids.''))
   \<and> (4 \<le> length peptide \<and> length peptide \<le> 100
        \<and> \<not> list_all (\<lambda>c. [c] \<in> set AMINO_ACIDS) (fold_peptide peptide) \<longrightarrow>
      encode_peptide peptide
        = Inl (InvalidAminoAcidError
                 (''Unsupported amino acid found in peptide `'' @ fold_peptide peptide @ ''`'')))"
proof -
  let ?p = "fold_peptide peptide"
  let ?f = "\<lambda>x. dict_get AMINO_ACID_IDS [x]"
  have len: "length ?p = length peptide" by (rule length_fold_peptide)
  have "those (map ?f ?p) = None"
    if "\<not> list_all (\<lambda>c. [c] \<in> set AMINO_ACIDS) ?p"
    using that by (intro those_map_None) (simp add: AMINO_ACID_IDS_dom [symmetric])
  then show ?thesis
    by (simp add: encode_peptide_def len Let_def)
qed


theorem encode_peptide_errors_witness:
  "is_ascii (replicate 101 CHR ''A'')
   \<and> 100 < length (replicate 101 CHR ''A'')
   \<and> encode_peptide (replicate 101 CHR ''A'')
       = Inl (InvalidPeptideError ''Peptide sequence cannot be longer than 100 amino acids.'')
   \<and> is_ascii ''AAA'' \<and> length ''AAA'' < 4
   \<and> encode_peptide ''AAA''
       = Inl (InvalidPeptideError ''Peptide sequence cannot be shorter than 4 amino acids.'')
   \<and> is_ascii ''ABZ_FOO'' \<and> 4 \<le> length ''ABZ_FOO'' \<and> length ''ABZ_FOO'' \<le> 100
   \<and> \<not> list_all (\<lambda>c. [c] \<in> set AMINO_ACIDS) (fold_peptide ''ABZ_FOO'')
   \<and> encode_peptide ''ABZ_FOO''
       = Inl (InvalidAminoAcidError
                (''Unsupported amino acid found in peptide `'' @ fold_peptide ''ABZ_FOO'' @ ''`''))"
proof -
  have f: "fold_peptide ''ABZ_FOO'' = ''ABZ_FOO''"
    by (simp add: fold_peptide_def py_replace_def py_upper_def upper_char_def)
  have n: "\<not> list_all (\<lambda>c. [c] \<in> set AMINO_ACIDS) (fold_peptide ''ABZ_FOO'')"
    by (simp add: f AMINO_ACIDS_def)
  have a1: "is_ascii (replicate 101 CHR ''A'')"
    by (simp add: is_ascii_def list_all_iff)
  have a2: "is_ascii ''AAA''" by (simp add: is_ascii_def)
  have a3: "is_ascii ''ABZ_FOO''" by (simp add: is_ascii_def)
  show ?thesis
    using encode_peptide_errors [OF a1] encode_peptide_errors [OF a2]
      encode_peptide_errors [OF a3] n a1 a2 a3
    by simp
qed


section \<open>Properties of the modification applicator\<close>

text \<open>
  Claim C6. \<^verbatim>\<open>apply_modifications\<close> never changes an array that existed before the
  call, whatever the modification string and whether it returns or raises: the heap
  after the call starts with the heap before it. For the empty string and for the
  marker \<^verbatim>\<open>-\<close> it allocates nothing and returns the caller's own reference; otherwise
  it allocates exactly one array, the copy, and a reference it returns is the copy's.
  The sibling \<^verbatim>\<open>apply_mods\<close> leaves the caller's arrays unchanged as well; it always
  allocates a copy and returns the copy.
\<close>

theorem apply_modifications_frame:
  "take (length h) (fst (apply_modifications h encoded_peptide mods id_map)) = h
   \<and> (mods = [] \<or> mods = ''-'' \<longrightarrow>
        apply_modifications h encoded_peptide mods id_map = (h, Inr encoded_peptide))
   \<and> (mods \<noteq> [] \<and> mods \<noteq> ''-'' \<longrightarrow>
        length (fst (apply_modifications h encoded_peptide mods id_map)) = length h + 1
      \<and> (\<forall>r. snd (apply_modifications h encoded_peptide mods id_map) = Inr r \<longrightarrow> r = length h))
   \<and> take (length h) (fst (apply_mods h encoded_peptide mods id_map)) = h
   \<and> length (fst (apply_mods h encoded_peptide mods id_map)) = length h + 1
   \<and> (\<forall>r. snd (apply_mods h encoded_peptide mods id_map) = Inr r \<longrightarrow> r = length h)"
  by (auto simp: apply_modifications_def apply_mods_def np_copy_def Let_def
           split: prod.splits option.splits)


text \<open>
  Two modifications written into the copy; an unknown name after one write, where the
  call raises and the caller's array is still as it was; and the marker \<^verbatim>\<open>-\<close>.
\<close>

theorem apply_modifications_frame_witness:
  "apply_modifications [ [0, 11, 3, 11, 15, 0] ] 0 ''0|Acetyl|2|Oxidation''
       [(''Oxidation'', 38), (''Acetyl'', 39)]
     = ([ [0, 11, 3, 11, 15, 0], [39, 11, 38, 11, 15, 0] ], Inr 1)
   \<and> apply_modifications [ [0, 11, 3, 11, 15, 0] ] 0 ''0|Acetyl|2|Phospho''
       [(''Oxidation'', 38), (''Acetyl'', 39)]
     = ([ [0, 11, 3, 11, 15, 0], [39, 11, 3, 11, 15, 0] ], Inl (UnknownModificationError ''Phospho''))
   \<and> take 1 (fst (apply_modifications [ [0, 11, 3, 11, 15, 0] ] 0 ''0|Acetyl|2|Phospho''
       [(''Oxidation'', 38), (''Acetyl'', 39)])) = [ [0, 11, 3, 11, 15, 0] ]
   \<and> apply_modifications [ [0, 11, 3, 11, 15, 0] ] 0 ''-'' [(''Oxidation'', 38), (''Acetyl'', 39)]
     = ([ [0, 11, 3, 11, 15, 0] ], Inr 0)"
proof -
  have e1: "apply_modifications [ [0, 11, 3, 11, 15, 0] ] 0 ''0|Acetyl|2|Oxidation''
       [(''Oxidation'', 38), (''Acetyl'', 39)]
     = ([ [0, 11, 3, 11, 15, 0], [39, 11, 38, 11, 15, 0] ], Inr 1)"
    by code_simp
  have e2: "apply_modifications [ [0, 11, 3, 11, 15, 0] ] 0 ''0|Acetyl|2|Phospho''
       [(''Oxidation'', 38), (''Acetyl'', 39)]
     = ([ [0, 11, 3, 11, 15, 0], [39, 11, 3, 11, 15, 0] ], Inl (UnknownModificationError ''Phospho''))"
    by code_simp
  show ?thesis
    using e1 e2
      apply_modifications_frame [of "[ [0, 11, 3, 11, 15, 0] ]" 0 "''0|Acetyl|2|Phospho''"
        "[(''Oxidation'', 38), (''Acetyl'', 39)]"]
      apply_modifications_frame [of "[ [0, 11, 3, 11, 15, 0] ]" 0 "''-''"
        "[(''Oxidation'', 38), (''Acetyl'', 39)]"]
    by simp
qed

section \<open>Properties of the modification registry\<close>

lemma dict_get_dict_set:
  "dict_get (dict_set d k v) k' = (if k' = k then Some v else dict_get d k')"
  by (induction d) auto

lemma dict_get_map_of: "dict_get d k = map_of d k"
  by (induction d) auto

lemma dict_get_None_iff: "(dict_get d k = None) = (k \<notin> fst ` set d)"
  by (simp add: dict_get_map_of map_of_eq_None_iff)

lemma keys_dict_set_present:
  "dict_get d k \<noteq> None \<Longrightarrow> map fst (dict_set d k v) = map fst d"
  by (induction d) (auto split: if_splits)

lemma keys_dict_set_absent:
  "dict_get d k = None \<Longrightarrow> map fst (dict_set d k v) = map fst d @ [k]"
  by (induction d) (auto split: if_splits)

lemma distinct_keys_dict_set:
  "distinct (map fst d) \<Longrightarrow> distinct (map fst (dict_set d k v))"
  by (cases "dict_get d k = None")
     (simp_all add: keys_dict_set_present keys_dict_set_absent dict_get_None_iff)

lemma dict_set_absent: "dict_get d k = None \<Longrightarrow> dict_set d k v = d @ [(k, v)]"
  by (induction d) (auto split: if_splits)

lemma mset_dict_set: "mset (dict_set d k v) \<subseteq># add_mset (k, v) (mset d)"
proof (induction d)
  case Nil
  show ?case by simp
next
  case (Cons a d)
  obtain k' v' where a: "a = (k', v')" by (cases a)
  show ?case
  proof (cases "k' = k")
    case True
    then show ?thesis by (simp add: a)
  next
    case False
    have "add_mset (k', v') (mset (dict_set d k v))
            \<subseteq># add_mset (k', v') (add_mset (k, v) (mset d))"
      using Cons.IH by simp
    then show ?thesis using False by (simp add: a add_mset_commute)
  qed
qed

lemma mset_concat_dict_set:
  "dict_get D t = Some c \<Longrightarrow>
   mset (concat (map snd (dict_set D t c'))) + mset c = mset (concat (map snd D)) + mset c'"
  by (induction D) (auto split: if_splits)

lemma concat_dict_set_empty:
  "dict_get D t = None \<Longrightarrow> concat (map snd (dict_set D t [])) = concat (map snd D)"
  by (simp add: dict_set_absent)

lemma mset_all_after_set:
  assumes "dict_get D t = Some c"
  shows "mset (concat (map snd (dict_set D t (dict_set c n m))))
           \<subseteq># add_mset (n, m) (mset (concat (map snd D)))"
proof -
  have "mset (concat (map snd (dict_set D t (dict_set c n m)))) + mset c
          = mset (concat (map snd D)) + mset (dict_set c n m)"
    by (rule mset_concat_dict_set [OF assms])
  also have "\<dots> \<subseteq># mset (concat (map snd D)) + add_mset (n, m) (mset c)"
    using mset_dict_set [of c n m] by (simp only: subset_mset.add_left_mono)
  finally have "mset (concat (map snd (dict_set D t (dict_set c n m)))) + mset c
          \<subseteq># add_mset (n, m) (mset (concat (map snd D))) + mset c"
    by simp
  then show ?thesis by (simp only: subset_mset.add_le_cancel_right)
qed

lemma distinct_submset:
  assumes "mset xs \<subseteq># add_mset n (mset ys)" and "distinct ys" and "n \<notin> set ys"
  shows "distinct xs \<and> set xs \<subseteq> insert n (set ys)"
proof -
  have s: "mset xs \<subseteq># mset (n # ys)" using assms(1) by simp
  have d: "distinct (n # ys)" using assms(2,3) by simp
  have "count (mset xs) a \<le> 1" for a
  proof -
    have "count (mset xs) a \<le> count (mset (n # ys)) a"
      by (rule mset_subset_eq_count [OF s])
    also have "\<dots> \<le> 1"
      using d by (simp only: distinct_count_atmost_1) simp
    finally show ?thesis .
  qed
  then have "distinct xs"
    by (metis count_mset_0_iff distinct_count_atmost_1 le_antisym less_one linorder_not_le)
  moreover from set_mset_mono [OF s] have "set xs \<subseteq> insert n (set ys)" by simp
  ultimately show ?thesis by simp
qed

lemma add_modstring_failure:
  "add_modstring env t self md = (self', Some e) \<Longrightarrow> self' = self"
  by (auto simp: add_modstring_def split: list.splits sum.splits option.splits)

lemma add_modstring_success:
  assumes "add_modstring env t self md = (self', None)"
  shows "\<exists>name s opt aa category shift aa_id.
           py_split CHR '','' md = [name, s, opt, aa]
         \<and> dict_get (modifications self) t = Some category
         \<and> self' = self\<lparr>modifications :=
                           dict_set (modifications self) t
                             (dict_set category name
                                \<lparr>mass_shift = shift, amino_acid = aa,
                                 amino_acid_id = aa_id, mod_id = next_mod_id self\<rparr>),
                         next_mod_id := next_mod_id self + 1\<rparr>"
  using assms
  by (auto simp: add_modstring_def split: list.splits sum.splits option.splits)

lemma set_dict_set: "set (dict_set d k v) \<subseteq> insert (k, v) (set d)"
  using set_mset_mono [OF mset_dict_set [of d k v] ] by simp

lemma registry_inv_set_entry:
  assumes inv: "registry_inv self"
      and cat: "dict_get (modifications self) t = Some category"
      and m: "mod_id m = next_mod_id self"
  shows "registry_inv (self\<lparr>modifications :=
             dict_set (modifications self) t (dict_set category name m),
           next_mod_id := next_mod_id self + 1\<rparr>)"
proof -
  let ?D = "modifications self"
  let ?D' = "dict_set ?D t (dict_set category name m)"
  let ?f = "\<lambda>(name, m). mod_id m"
  let ?ids = "mod_ids_of self"
  let ?ids' = "map ?f (concat (map snd ?D'))"
  have sub: "mset (concat (map snd ?D')) \<subseteq># add_mset (name, m) (mset (concat (map snd ?D)))"
    by (rule mset_all_after_set [OF cat])
  have "mset ?ids' \<subseteq># add_mset (next_mod_id self) (mset ?ids)"
    using image_mset_subseteq_mono [OF sub, of ?f]
    by (simp add: mod_ids_of_def all_modifications_def m)
  moreover have "distinct ?ids" using inv by (simp add: registry_inv_def)
  moreover have fresh: "next_mod_id self \<notin> set ?ids"
    using inv by (auto simp: registry_inv_def list_all_iff)
  ultimately have d: "distinct ?ids'" and s: "set ?ids' \<subseteq> insert (next_mod_id self) (set ?ids)"
    using distinct_submset [of ?ids' "next_mod_id self" ?ids] by simp_all
  have bound: "list_all (\<lambda>i. 38 \<le> i \<and> i < next_mod_id self + 1) ?ids'"
    using s inv by (fastforce simp: registry_inv_def list_all_iff)
  have "category \<in> snd ` set ?D"
    using cat by (metis dict_get_map_of image_eqI map_of_SomeD snd_conv)
  then have dc: "distinct (map fst category)"
    using inv by (auto simp: registry_inv_def list_all_iff)
  have cats: "list_all (\<lambda>(c, d). distinct (map fst d)) ?D'"
    using set_dict_set [of ?D t "dict_set category name m"] inv
      distinct_keys_dict_set [OF dc, of name m]
    by (auto simp: registry_inv_def list_all_iff)
  have keys: "map fst ?D' = map fst ?D"
    using cat by (simp add: keys_dict_set_present)
  show ?thesis
    using inv d bound cats keys
    by (simp add: registry_inv_def mod_ids_of_def all_modifications_def)
qed

lemma add_modstring_inv:
  assumes "registry_inv self" and "add_modstring env t self md = (self', e)"
  shows "registry_inv self'"
proof (cases e)
  case None
  with assms(2) add_modstring_success [of env t self md self']
  obtain name category m where "dict_get (modifications self) t = Some category"
    and "mod_id m = next_mod_id self"
    and "self' = self\<lparr>modifications := dict_set (modifications self) t (dict_set category name m),
                       next_mod_id := next_mod_id self + 1\<rparr>"
    by force
  then show ?thesis using registry_inv_set_entry [OF assms(1)] by simp
next
  case (Some err)
  with assms show ?thesis using add_modstring_failure by metis
qed

lemma entry_id_after_set:
  assumes "dict_get (modifications self) t = Some category"
  shows "entry_id (self\<lparr>modifications := dict_set (modifications self) t (dict_set category name m),
                        next_mod_id := k\<rparr>) t' n
           = (if t' = t \<and> n = name then Some (mod_id m) else entry_id self t' n)"
  using assms by (auto simp: entry_id_def dict_get_dict_set)

lemma add_modstring_step:
  assumes "add_modstring env t self md = (self', None)"
  shows "next_mod_id self' = next_mod_id self + 1
       \<and> entry_id self' t (hd (py_split CHR '','' md)) = Some (next_mod_id self)
       \<and> (\<forall>t' n. (t', n) \<noteq> (t, hd (py_split CHR '','' md)) \<longrightarrow>
             entry_id self' t' n = entry_id self t' n)"
proof -
  from add_modstring_success [OF assms]
  obtain name s opt aa category m where p: "py_split CHR '','' md = [name, s, opt, aa]"
    and c: "dict_get (modifications self) t = Some category"
    and m: "mod_id m = next_mod_id self"
    and s: "self' = self\<lparr>modifications := dict_set (modifications self) t (dict_set category name m),
                       next_mod_id := next_mod_id self + 1\<rparr>"
    by force
  show ?thesis
    unfolding s using entry_id_after_set [OF c] m by (auto simp: p)
qed

lemma add_modstrings_inv:
  "registry_inv self \<Longrightarrow> add_modstrings env t self mss = (self', e) \<Longrightarrow>
   registry_inv self' \<and> next_mod_id self \<le> next_mod_id self'
   \<and> (e = None \<longrightarrow> next_mod_id self' = next_mod_id self + int (length mss))"
proof (induction mss arbitrary: self)
  case Nil
  then show ?case by simp
next
  case (Cons md mss)
  obtain s1 e1 where a: "add_modstring env t self md = (s1, e1)" by force
  have inv1: "registry_inv s1" by (rule add_modstring_inv [OF Cons.prems(1) a])
  show ?case
  proof (cases e1)
    case None
    with a Cons.prems(2) have r: "add_modstrings env t s1 mss = (self', e)" by simp
    from a None add_modstring_step [of env t self md s1]
    have n: "next_mod_id s1 = next_mod_id self + 1" by simp
    from Cons.IH [OF inv1 r] n show ?thesis by auto
  next
    case (Some err)
    with a Cons.prems(2) have "self' = s1" "e = Some err" by simp_all
    moreover from a Some have "s1 = self" using add_modstring_failure by metis
    ultimately show ?thesis using Cons.prems(1) by simp
  qed
qed

lemma registry_inv_new_category:
  assumes "registry_inv self" and "dict_get (modifications self) t = None"
  shows "registry_inv (self\<lparr>modifications := dict_set (modifications self) t []\<rparr>)"
proof -
  have "length (map fst (modifications self)) \<ge> 2"
  proof (rule ccontr)
    assume "\<not> 2 \<le> length (map fst (modifications self))"
    then have "length (take 2 (map fst (modifications self))) < 2" by simp
    moreover have "length (take 2 (map fst (modifications self))) = 2"
      using assms(1) by (simp only: registry_inv_def) simp
    ultimately show False by simp
  qed
  then have "take 2 (map fst (modifications self) @ [t]) = take 2 (map fst (modifications self))"
    by simp
  then show ?thesis
    using assms
    by (simp add: registry_inv_def dict_set_absent mod_ids_of_def all_modifications_def)
qed

lemma add_from_ms2pip_modstrings_inv:
  assumes inv: "registry_inv self"
      and run: "add_from_ms2pip_modstrings env self mss t = (self', e)"
  shows "registry_inv self' \<and> next_mod_id self \<le> next_mod_id self'
       \<and> (e = None \<longrightarrow> next_mod_id self' = next_mod_id self + int (length mss))"
proof -
  let ?self0 = "if dict_get (modifications self) t = None
                then self\<lparr>modifications := dict_set (modifications self) t []\<rparr> else self"
  have inv0: "registry_inv ?self0"
    using inv registry_inv_new_category [OF inv] by simp
  have n0: "next_mod_id ?self0 = next_mod_id self" by simp
  obtain s1 e1 where loop: "add_modstrings env t ?self0 mss = (s1, e1)" by force
  from add_modstrings_inv [OF inv0 loop] n0
  have 1: "registry_inv s1" "next_mod_id self \<le> next_mod_id s1"
    "e1 = None \<longrightarrow> next_mod_id s1 = next_mod_id self + int (length mss)"
    by simp_all
  have res: "(self', e) = (case e1 of Some x \<Rightarrow> (s1, Some x)
                         | None \<Rightarrow> (s1\<lparr>mass_shifts_cache := None\<rparr>, None))"
    using run loop by (simp add: add_from_ms2pip_modstrings_def Let_def split: option.splits)
  have c: "registry_inv (s1\<lparr>mass_shifts_cache := None\<rparr>) = registry_inv s1"
    by (simp add: registry_inv_def mod_ids_of_def all_modifications_def)
  show ?thesis
    using res 1 c by (cases e1) auto
qed

lemma registry_inv_mass_shifts: "registry_inv (fst (mass_shifts self)) = registry_inv self"
  by (auto simp: mass_shifts_def registry_inv_def mod_ids_of_def all_modifications_def Let_def
           split: option.splits list.splits)

lemma registry_inv_ptm_ids: "registry_inv (fst (ptm_ids self)) = registry_inv self"
  by (auto simp: ptm_ids_def registry_inv_def mod_ids_of_def all_modifications_def Let_def
           split: option.splits list.splits)

lemma registry_inv_init: "registry_inv Modifications_init"
  by (simp add: registry_inv_def Modifications_init_def mod_ids_of_def all_modifications_def)

lemma reachable_inv: "reachable env self \<Longrightarrow> registry_inv self"
proof (induction rule: reachable.induct)
  case fresh
  show ?case by (rule registry_inv_init)
next
  case (registered self modstrings modtype)
  then show ?case
    using add_from_ms2pip_modstrings_inv [of self env modstrings modtype]
    by (metis prod.collapse)
next
  case (read_mass_shifts self)
  then show ?case by (simp add: registry_inv_mass_shifts)
next
  case (read_ptm_ids self)
  then show ?case by (simp add: registry_inv_ptm_ids)
qed

lemma resolve_M: "resolve_amino_acid ''M'' = Inr 9"
  by (simp add: resolve_amino_acid_def AMINO_ACID_IDS_def AMINO_ACIDS_def dict_of_items_def
        upt_conv_Cons del: upt_Suc)

lemma resolve_N_term: "resolve_amino_acid ''N-term'' = Inr (- 1)"
  by (simp add: resolve_amino_acid_def)

lemma docstring_example:
  assumes "float_of_str env ''15.994915'' = Some a" and "float_of_str env ''42.010565'' = Some b"
  shows "entry_id (fst (add_from_ms2pip_modstrings env Modifications_init
                     [''Oxidation,15.994915,opt,M'', ''Acetyl,42.010565,opt,N-term''] ''ptm''))
           ''ptm'' ''Oxidation'' = Some 38
       \<and> entry_id (fst (add_from_ms2pip_modstrings env Modifications_init
                     [''Oxidation,15.994915,opt,M'', ''Acetyl,42.010565,opt,N-term''] ''ptm''))
           ''ptm'' ''Acetyl'' = Some 39"
  using assms
  by (simp add: add_from_ms2pip_modstrings_def add_modstring_def Modifications_init_def
        resolve_M resolve_N_term entry_id_def)

text \<open>
  Claim C7. The counter starts at 38. In every registry a program can build, the numeric
  ids of all entries, over all categories, are pairwise distinct, at least 38 and below
  the counter. Registering one entry stores the counter's value as its id, under the
  entry's name in the category of the call, raises the counter by exactly one and leaves
  the id of every other name as it was; a registration call never lowers the counter and,
  when it returns, has raised it by the number of entries. So ids rise strictly in
  registration order across categories and calls, and no id value is handed out twice.
  Registering \<^verbatim>\<open>["Oxidation,15.994915,opt,M", "Acetyl,42.010565,opt,N-term"]\<close> in a fresh
  registry gives Oxidation the id 38 and Acetyl the id 39.
\<close>

theorem mod_ids_from_shared_counter:
  assumes "reachable env self"
  shows "next_mod_id (Modifications_init :: 'f Modifications) = 38
       \<and> 38 \<le> next_mod_id self
       \<and> distinct (mod_ids_of self)
       \<and> list_all (\<lambda>i. 38 \<le> i \<and> i < next_mod_id self) (mod_ids_of self)
       \<and> (\<forall>modtype md self'. add_modstring env modtype self md = (self', None) \<longrightarrow>
             next_mod_id self' = next_mod_id self + 1
           \<and> entry_id self' modtype (hd (py_split CHR '','' md)) = Some (next_mod_id self)
           \<and> (\<forall>t n. (t, n) \<noteq> (modtype, hd (py_split CHR '','' md)) \<longrightarrow>
                 entry_id self' t n = entry_id self t n))
       \<and> (\<forall>modstrings modtype self' e.
             add_from_ms2pip_modstrings env self modstrings modtype = (self', e) \<longrightarrow>
             next_mod_id self \<le> next_mod_id self'
           \<and> (e = None \<longrightarrow> next_mod_id self' = next_mod_id self + int (length modstrings)))
       \<and> (\<forall>a b. float_of_str env ''15.994915'' = Some a \<and> float_of_str env ''42.010565'' = Some b \<longrightarrow>
             entry_id (fst (add_from_ms2pip_modstrings env Modifications_init
                        [''Oxidation,15.994915,opt,M'', ''Acetyl,42.010565,opt,N-term''] ''ptm''))
               ''ptm'' ''Oxidation'' = Some 38
           \<and> entry_id (fst (add_from_ms2pip_modstrings env Modifications_init
                        [''Oxidation,15.994915,opt,M'', ''Acetyl,42.010565,opt,N-term''] ''ptm''))
               ''ptm'' ''Acetyl'' = Some 39)"
proof -
  have inv: "registry_inv self" by (rule reachable_inv [OF assms])
  have 1: "next_mod_id (Modifications_init :: 'f Modifications) = 38"
    by (simp add: Modifications_init_def)
  have 2: "38 \<le> next_mod_id self" "distinct (mod_ids_of self)"
    "list_all (\<lambda>i. 38 \<le> i \<and> i < next_mod_id self) (mod_ids_of self)"
    using inv by (simp_all add: registry_inv_def)
  have 3: "next_mod_id self' = next_mod_id self + 1
           \<and> entry_id self' modtype (hd (py_split CHR '','' md)) = Some (next_mod_id self)
           \<and> (\<forall>t n. (t, n) \<noteq> (modtype, hd (py_split CHR '','' md)) \<longrightarrow>
                 entry_id self' t n = entry_id self t n)"
    if "add_modstring env modtype self md = (self', None)" for modtype md self'
    by (rule add_modstring_step [OF that])
  have 4: "next_mod_id self \<le> next_mod_id self'
           \<and> (e = None \<longrightarrow> next_mod_id self' = next_mod_id self + int (length modstrings))"
    if "add_from_ms2pip_modstrings env self modstrings modtype = (self', e)"
    for modstrings modtype self' e
    using add_from_ms2pip_modstrings_inv [OF inv that] by simp
  from 1 2 3 4 docstring_example [of env] show ?thesis by blast
qed


text \<open>The registry of the docstring's example: counter 40, ids 38 and 39.\<close>

theorem mod_ids_from_shared_counter_witness:
  "reachable symbolic_env
     (fst (add_from_ms2pip_modstrings symbolic_env Modifications_init
        [''Oxidation,15.994915,opt,M'', ''Acetyl,42.010565,opt,N-term''] ''ptm''))
   \<and> next_mod_id (fst (add_from_ms2pip_modstrings symbolic_env Modifications_init
        [''Oxidation,15.994915,opt,M'', ''Acetyl,42.010565,opt,N-term''] ''ptm'')) = 40
   \<and> mod_ids_of (fst (add_from_ms2pip_modstrings symbolic_env Modifications_init
        [''Oxidation,15.994915,opt,M'', ''Acetyl,42.010565,opt,N-term''] ''ptm'')) = [38, 39]
   \<and> distinct (mod_ids_of (fst (add_from_ms2pip_modstrings symbolic_env Modifications_init
        [''Oxidation,15.994915,opt,M'', ''Acetyl,42.010565,opt,N-term''] ''ptm'')))
   \<and> entry_id (fst (add_from_ms2pip_modstrings symbolic_env Modifications_init
        [''Oxidation,15.994915,opt,M'', ''Acetyl,42.010565,opt,N-term''] ''ptm''))
        ''ptm'' ''Acetyl'' = Some 39"
proof -
  let ?r = "fst (add_from_ms2pip_modstrings symbolic_env Modifications_init
        [''Oxidation,15.994915,opt,M'', ''Acetyl,42.010565,opt,N-term''] ''ptm'')"
  have r: "reachable symbolic_env ?r"
    by (rule reachable.registered [OF reachable.fresh])
  have f: "float_of_str symbolic_env ''15.994915'' = Some (FLit ''15.994915'')
         \<and> float_of_str symbolic_env ''42.010565'' = Some (FLit ''42.010565'')"
    by (simp add: symbolic_env_def is_decimal_literal_def)
  have n: "next_mod_id ?r = 40" by code_simp
  have i: "mod_ids_of ?r = [38, 39]" by code_simp
  note t = mod_ids_from_shared_counter [OF r]
  have d: "distinct (mod_ids_of ?r)"
    by (rule t [THEN conjunct2, THEN conjunct2, THEN conjunct1])
  have e: "entry_id ?r ''ptm'' ''Acetyl'' = Some 39"
    using t [THEN conjunct2, THEN conjunct2, THEN conjunct2, THEN conjunct2, THEN conjunct2,
             THEN conjunct2, rule_format, OF f]
    by simp
  from r n i d e show ?thesis by simp
qed


text \<open>
  Claim C2 says that every registration clears both caches. The code clears
  \<^verbatim>\<open>_mass_shifts\<close> and never \<^verbatim>\<open>_ptm_ids\<close>: register Oxidation, read both properties,
  register Acetyl. The mass-shift lookup is rebuilt and knows Acetyl; the id lookup is
  still the dict that was cached before the second registration and does not, although
  the registry holds Acetyl with the id 39.
\<close>

theorem ptm_ids_not_invalidated:
  "entry_id acetyl_registry ''ptm'' ''Acetyl'' = Some 39
   \<and> mass_shifts_cache oxidation_registry_read = Some [(''Oxidation'', FLit ''15.994915'')]
   \<and> ptm_ids_cache oxidation_registry_read = Some [(''Oxidation'', 38)]
   \<and> mass_shifts_cache acetyl_registry = None
   \<and> snd (mass_shifts acetyl_registry)
       = [(''Oxidation'', FLit ''15.994915''), (''Acetyl'', FLit ''42.010565'')]
   \<and> ptm_ids_cache acetyl_registry = Some [(''Oxidation'', 38)]
   \<and> snd (ptm_ids acetyl_registry) = [(''Oxidation'', 38)]
   \<and> dict_get (snd (ptm_ids acetyl_registry)) ''Acetyl'' = None"
  by code_simp

text \<open>
  How the shared lookups are built: a dict comprehension over the chained items keeps,
  for each name, the item that comes last in the chain.
\<close>

lemma dict_get_foldl_dict_set:
  "dict_get (foldl (\<lambda>d (k, v). dict_set d k v) d0 kvs) k
     = (case map_of (rev kvs) k of Some v \<Rightarrow> Some v | None \<Rightarrow> dict_get d0 k)"
proof (induction kvs arbitrary: d0)
  case Nil
  show ?case by simp
next
  case (Cons kv kvs)
  obtain k' v' where kv: "kv = (k', v')" by (cases kv)
  show ?case
    by (simp add: kv Cons.IH dict_get_dict_set map_add_def split: option.splits)
qed

lemma dict_get_dict_of_items: "dict_get (dict_of_items kvs) k = map_of (rev kvs) k"
  by (simp add: dict_of_items_def dict_get_foldl_dict_set split: option.splits)

lemma map_of_rev_distinct: "distinct (map fst d) \<Longrightarrow> map_of (rev d) k = map_of d k"
  by (metis distinct_rev map_of_inject_set rev_map set_rev)

lemma last_category_lookup:
  "list_all (\<lambda>(c, d). distinct (map fst d)) cats \<Longrightarrow>
   map_of (rev (concat (map snd cats))) name
     = (case rev (filter (\<lambda>(c, d). dict_get d name \<noteq> None) cats) of
          [] \<Rightarrow> None
        | (c, d) # _ \<Rightarrow> dict_get d name)"
proof (induction cats rule: rev_induct)
  case Nil
  show ?case by simp
next
  case (snoc cd cats)
  obtain c d where cd: "cd = (c, d)" by (cases cd)
  from snoc.prems have dd: "distinct (map fst d)"
    and rest: "list_all (\<lambda>(c, d). distinct (map fst d)) cats"
    by (simp_all add: cd)
  have md: "map_of (rev d) name = dict_get d name"
    by (simp add: map_of_rev_distinct [OF dd] dict_get_map_of)
  show ?case
  proof (cases "dict_get d name")
    case None
    then show ?thesis using snoc.IH [OF rest] md
      by (simp add: cd map_add_def)
  next
    case (Some m)
    then show ?thesis using md
      by (simp add: cd map_add_def)
  qed
qed

text \<open>
  Claim C9, as stated: when one name is registered in two categories, the shared
  lookups return the later-registered definition, whichever the categories. They do not
  when the earlier registration is the \<^verbatim>\<open>sptm\<close> one: Oxidation is registered as an
  \<^verbatim>\<open>sptm\<close> (id 38) and then as a \<^verbatim>\<open>ptm\<close> (id 39), and both lookups return the values of
  the first registration.
\<close>

theorem later_registration_wins_counterexample:
  "entry_id sptm_first_registry ''sptm'' ''Oxidation'' = Some 38
   \<and> entry_id sptm_first_registry ''ptm'' ''Oxidation'' = Some 39
   \<and> dict_get (snd (ptm_ids sptm_first_registry)) ''Oxidation'' = Some 38
   \<and> dict_get (snd (mass_shifts sptm_first_registry)) ''Oxidation'' = Some (FLit ''15.994915'')
   \<and> dict_get (snd (ptm_ids sptm_first_registry)) ''Oxidation'' \<noteq> Some 39
   \<and> dict_get (snd (mass_shifts sptm_first_registry)) ''Oxidation'' \<noteq> Some (FLit ''31.98983'')"
  by code_simp


text \<open>
  Claim C9, amended. Whenever a lookup is rebuilt, that is whenever its own cache is
  \<^verbatim>\<open>None\<close> or the empty dict when the property is read, it returns for a name the
  values of the name's definition in the last category that holds the name, in the order
  of the categories in the registry, where \<^verbatim>\<open>ptm\<close> comes first and \<^verbatim>\<open>sptm\<close> second
  whatever the order of the registrations. So of a \<^verbatim>\<open>ptm\<close> and an \<^verbatim>\<open>sptm\<close> definition
  of one name the \<^verbatim>\<open>sptm\<close> one is returned. This holds for each of the two lookups on
  its own, in every registry a program can build.
\<close>

theorem shared_lookup_follows_category_order:
  assumes "reachable env self"
  shows "(ptm_ids_cache self = None \<or> ptm_ids_cache self = Some [] \<longrightarrow>
            dict_get (snd (ptm_ids self)) name = map_option mod_id (last_definition self name))
       \<and> (mass_shifts_cache self = None \<or> mass_shifts_cache self = Some [] \<longrightarrow>
            dict_get (snd (mass_shifts self)) name
              = map_option mass_shift (last_definition self name))
       \<and> take 2 (map fst (modifications self)) = [''ptm'', ''sptm'']"
proof -
  have inv: "registry_inv self" by (rule reachable_inv [OF assms(1)])
  then have cats: "list_all (\<lambda>(c, d). distinct (map fst d)) (modifications self)"
    and order: "take 2 (map fst (modifications self)) = [''ptm'', ''sptm'']"
    by (simp_all add: registry_inv_def)
  have last: "map_of (rev (all_modifications self)) name = last_definition self name"
    using last_category_lookup [OF cats, of name]
    by (simp add: all_modifications_def last_definition_def)
  have p: "dict_get (snd (ptm_ids self)) name = map_option mod_id (last_definition self name)"
    if "ptm_ids_cache self = None \<or> ptm_ids_cache self = Some []"
  proof -
    have "dict_get (snd (ptm_ids self)) name
            = map_of (map (\<lambda>(name, m). (name, mod_id m)) (rev (all_modifications self))) name"
      using that by (auto simp: ptm_ids_def Let_def dict_get_dict_of_items rev_map)
    then show ?thesis by (simp add: map_of_map last)
  qed
  have m: "dict_get (snd (mass_shifts self)) name
             = map_option mass_shift (last_definition self name)"
    if "mass_shifts_cache self = None \<or> mass_shifts_cache self = Some []"
  proof -
    have "dict_get (snd (mass_shifts self)) name
            = map_of (map (\<lambda>(name, m). (name, mass_shift m)) (rev (all_modifications self))) name"
      using that by (auto simp: mass_shifts_def Let_def dict_get_dict_of_items rev_map)
    then show ?thesis by (simp add: map_of_map last)
  qed
  from p m order show ?thesis by blast
qed

text \<open>
  The registry with Oxidation as an \<^verbatim>\<open>sptm\<close> first and as a \<^verbatim>\<open>ptm\<close> later: the mass-shift
  lookup is rebuilt at its first read; the id lookup is rebuilt when it is first read
  after that, with the other cache already filled.
\<close>

theorem shared_lookup_follows_category_order_witness:
  "reachable symbolic_env sptm_first_registry
   \<and> mass_shifts_cache sptm_first_registry = None
   \<and> dict_get (snd (mass_shifts sptm_first_registry)) ''Oxidation'' = Some (FLit ''15.994915'')
   \<and> reachable symbolic_env (fst (mass_shifts sptm_first_registry))
   \<and> mass_shifts_cache (fst (mass_shifts sptm_first_registry))
       = Some [(''Oxidation'', FLit ''15.994915'')]
   \<and> ptm_ids_cache (fst (mass_shifts sptm_first_registry)) = None
   \<and> dict_get (snd (ptm_ids (fst (mass_shifts sptm_first_registry)))) ''Oxidation'' = Some 38"
proof -
  have r: "reachable symbolic_env sptm_first_registry"
    unfolding sptm_first_registry_def
    by (intro reachable.registered reachable.fresh)
  have r': "reachable symbolic_env (fst (mass_shifts sptm_first_registry))"
    by (rule reachable.read_mass_shifts [OF r])
  have c1: "mass_shifts_cache sptm_first_registry = None" by code_simp
  have c2: "ptm_ids_cache (fst (mass_shifts sptm_first_registry)) = None" by code_simp
  have c3: "mass_shifts_cache (fst (mass_shifts sptm_first_registry))
              = Some [(''Oxidation'', FLit ''15.994915'')]"
    by code_simp
  have l1: "map_option mod_id
              (last_definition (fst (mass_shifts sptm_first_registry)) ''Oxidation'') = Some 38"
    by code_simp
  have l2: "map_option mass_shift (last_definition sptm_first_registry ''Oxidation'')
              = Some (FLit ''15.994915'')"
    by code_simp
  have m: "dict_get (snd (mass_shifts sptm_first_registry)) ''Oxidation''
             = Some (FLit ''15.994915'')"
    using shared_lookup_follows_category_order [OF r, of "''Oxidation''"] c1 l2 by simp
  have p: "dict_get (snd (ptm_ids (fst (mass_shifts sptm_first_registry)))) ''Oxidation''
             = Some 38"
    using shared_lookup_follows_category_order [OF r', of "''Oxidation''"] c2 l1 by simp
  from r r' c1 c2 c3 m p show ?thesis by simp
qed

section \<open>Properties of the mass calculator\<close>

lemma mass_shifts_again:
  "mass_shifts (fst (mass_shifts self)) = (fst (mass_shifts self), snd (mass_shifts self))"
  by (cases "mass_shifts_cache self"; cases "the (mass_shifts_cache self)";
      cases "dict_of_items (map (\<lambda>(name, m). (name, mass_shift m)) (all_modifications self))")
     (simp_all add: mass_shifts_def Let_def all_modifications_def)

lemma lookup_mass_shifts_result:
  "snd (lookup_mass_shifts self names)
     = (case find (\<lambda>n. dict_get (snd (mass_shifts self)) n = None) names of
          Some n \<Rightarrow> Inl (KeyError n)
        | None \<Rightarrow> Inr (map (\<lambda>n. the (dict_get (snd (mass_shifts self)) n)) names))"
proof (induction names arbitrary: self)
  case Nil
  show ?case by simp
next
  case (Cons n names)
  obtain self1 d where m: "mass_shifts self = (self1, d)" by force
  have again: "snd (mass_shifts self1) = d"
    using mass_shifts_again [of self] m by simp
  show ?case
  proof (cases "dict_get d n")
    case None
    then show ?thesis using m by simp
  next
    case (Some shift)
    then show ?thesis
      using m Cons.IH [of self1] again
      by (simp add: split_beta split: sum.splits option.splits prod.splits)
  qed
qed


text \<open>
  Claim C8 says that the mass calculation fails with UnknownModificationError when the
  modification string names a modification that is not registered. The code indexes the
  lookup dict with no guard, so with Oxidation and Acetyl registered the string
  \<^verbatim>\<open>2|Phospho\<close> raises KeyError. For the same string and the same registry both
  applicators, \<^verbatim>\<open>apply_modifications\<close> and \<^verbatim>\<open>apply_mods\<close>, raise
  UnknownModificationError.
\<close>

theorem calc_precursor_mz_unknown_name_KeyError:
  "snd (calc_precursor_mz symbolic_env docstring_registry ''PEPTIDE'' ''2|Phospho'' 2)
     = Inl (KeyError ''Phospho'')
   \<and> snd (apply_modifications [ [0, 11, 3, 11, 15, 7, 2, 3, 0] ] 0 ''2|Phospho''
            (snd (ptm_ids docstring_registry)))
     = Inl (UnknownModificationError ''Phospho'')
   \<and> snd (apply_mods [ [0, 11, 3, 11, 15, 7, 2, 3, 0] ] 0 ''2|Phospho''
            (snd (ptm_ids docstring_registry)))
     = Inl (UnknownModificationError ''Phospho'')"
  by code_simp

text \<open>
  What the calculation returns in general, where \<^verbatim>\<open>fast_mass\<close> returns the unmodified
  mass: if a name at an odd position of the split modification string is missing from
  the name-to-mass_shift lookup, KeyError with the first such name; if all are present,
  for a charge other than 0 the mass \<open>unmodified_mass + sum of the mass shifts\<close> and the
  m/z \<open>(mass + charge * PROTON_MASS) / charge\<close>, with the float operations in the order
  in which the code applies them, and for the charge 0 ZeroDivisionError.
\<close>

lemma calc_precursor_mz_result:
  assumes "fast_mass env peptide = Inr unmodified_mass"
  shows "(\<forall>name. find (\<lambda>n. dict_get (snd (mass_shifts self)) n = None)
                   (odd_items (py_split CHR ''|'' mods)) = Some name \<longrightarrow>
            snd (calc_precursor_mz env self peptide mods charge) = Inl (KeyError name))
       \<and> (\<forall>c. list_all (\<lambda>n. dict_get (snd (mass_shifts self)) n \<noteq> None)
                  (odd_items (py_split CHR ''|'' mods))
              \<and> charge \<noteq> 0 \<and> float_of_int env charge = Some c \<longrightarrow>
            snd (calc_precursor_mz env self peptide mods charge)
              = Inr (float_add env unmodified_mass
                       (foldl (float_add env) (float_zero env)
                          (map (\<lambda>n. the (dict_get (snd (mass_shifts self)) n))
                             (odd_items (py_split CHR ''|'' mods)))),
                     float_div env
                       (float_add env
                          (float_add env unmodified_mass
                             (foldl (float_add env) (float_zero env)
                                (map (\<lambda>n. the (dict_get (snd (mass_shifts self)) n))
                                   (odd_items (py_split CHR ''|'' mods)))))
                          (float_mul env c (PROTON_MASS env)))
                       c))
       \<and> (\<forall>c. list_all (\<lambda>n. dict_get (snd (mass_shifts self)) n \<noteq> None)
                  (odd_items (py_split CHR ''|'' mods))
              \<and> charge = 0 \<and> float_of_int env charge = Some c \<longrightarrow>
            snd (calc_precursor_mz env self peptide mods charge)
              = Inl (ZeroDivisionError ''float division by zero''))"
proof -
  let ?names = "odd_items (py_split CHR ''|'' mods)"
  let ?D = "snd (mass_shifts self)"
  obtain s1 r where l: "lookup_mass_shifts self ?names = (s1, r)" by force
  have r: "r = (case find (\<lambda>n. dict_get ?D n = None) ?names of
                  Some n \<Rightarrow> Inl (KeyError n)
                | None \<Rightarrow> Inr (map (\<lambda>n. the (dict_get ?D n)) ?names))"
    using lookup_mass_shifts_result [of self ?names] l by simp
  have none: "find (\<lambda>n. dict_get ?D n = None) ?names = None"
    if "list_all (\<lambda>n. dict_get ?D n \<noteq> None) ?names"
    using that by (simp add: find_None_iff list_all_iff)
  show ?thesis
    using assms l r none
    by (auto simp: calc_precursor_mz_def Let_def)
qed

lemma calc_precursor_mz_example:
  "fast_mass symbolic_env ''PEPTIDE'' = Inr (FMass ''PEPTIDE'')
   \<and> find (\<lambda>n. dict_get (snd (mass_shifts docstring_registry)) n = None)
        (odd_items (py_split CHR ''|'' ''2|Phospho'')) = Some ''Phospho''
   \<and> snd (calc_precursor_mz symbolic_env docstring_registry ''PEPTIDE'' ''2|Phospho'' 2)
       = Inl (KeyError ''Phospho'')
   \<and> list_all (\<lambda>n. dict_get (snd (mass_shifts docstring_registry)) n \<noteq> None)
        (odd_items (py_split CHR ''|'' ''0|Acetyl|2|Oxidation''))
   \<and> float_of_int symbolic_env 2 = Some (FInt 2)
   \<and> snd (calc_precursor_mz symbolic_env docstring_registry ''PEPTIDE'' ''0|Acetyl|2|Oxidation'' 2)
       = Inr (FAdd (FMass ''PEPTIDE'')
                (FAdd (FAdd (FInt 0) (FLit ''42.010565'')) (FLit ''15.994915'')),
              FDiv (FAdd (FAdd (FMass ''PEPTIDE'')
                            (FAdd (FAdd (FInt 0) (FLit ''42.010565'')) (FLit ''15.994915'')))
                         (FMul (FInt 2) (FLit ''1.007825032070059'')))
                   (FInt 2))"
proof -
  have m: "fast_mass symbolic_env ''PEPTIDE'' = Inr (FMass ''PEPTIDE'')"
    by (simp add: symbolic_env_def)
  have f: "find (\<lambda>n. dict_get (snd (mass_shifts docstring_registry)) n = None)
        (odd_items (py_split CHR ''|'' ''2|Phospho'')) = Some ''Phospho''"
    by code_simp
  have a: "list_all (\<lambda>n. dict_get (snd (mass_shifts docstring_registry)) n \<noteq> None)
        (odd_items (py_split CHR ''|'' ''0|Acetyl|2|Oxidation''))"
    by code_simp
  have c: "float_of_int symbolic_env 2 = Some (FInt 2)"
    by (simp add: symbolic_env_def)
  have v: "the (dict_get (snd (mass_shifts docstring_registry)) ''Acetyl'') = FLit ''42.010565''"
    "the (dict_get (snd (mass_shifts docstring_registry)) ''Oxidation'') = FLit ''15.994915''"
    by code_simp+
  have e: "float_add symbolic_env = FAdd" "float_mul symbolic_env = FMul"
    "float_div symbolic_env = FDiv" "float_zero symbolic_env = FInt 0"
    "PROTON_MASS symbolic_env = FLit ''1.007825032070059''"
    by (simp_all add: symbolic_env_def)
  note t = calc_precursor_mz_result [OF m]
  have k: "snd (calc_precursor_mz symbolic_env docstring_registry ''PEPTIDE'' ''2|Phospho'' 2)
       = Inl (KeyError ''Phospho'')"
    using t [of docstring_registry "''2|Phospho''" 2, THEN conjunct1, rule_format, OF f] .
  have z: "snd (calc_precursor_mz symbolic_env docstring_registry ''PEPTIDE''
                  ''0|Acetyl|2|Oxidation'' 2)
       = Inr (FAdd (FMass ''PEPTIDE'')
                (FAdd (FAdd (FInt 0) (FLit ''42.010565'')) (FLit ''15.994915'')),
              FDiv (FAdd (FAdd (FMass ''PEPTIDE'')
                            (FAdd (FAdd (FInt 0) (FLit ''42.010565'')) (FLit ''15.994915'')))
                         (FMul (FInt 2) (FLit ''1.007825032070059'')))
                   (FInt 2))"
    using t [of docstring_registry "''0|Acetyl|2|Oxidation''" 2, THEN conjunct2, THEN conjunct1,
             rule_format, of "FInt 2"] a c
    by (simp add: v e)
  from m f k a c z show ?thesis by simp
qed


section \<open>Properties of the model artifact check\<close>

text \<open>
  Since the reading loop raises before the digest is compared, the integrity check
  never returns, and the presence check never answers \<^verbatim>\<open>True\<close>.
\<close>

lemma check_model_integrity_never_succeeds: "check_model_integrity fs filename \<noteq> Inr ok"
  by (simp add: check_model_integrity_def read_and_hash_def split: option.splits)

lemma check_model_presence_never_accepts: "check_model_presence fs home model \<noteq> Inr True"
  using check_model_integrity_never_succeeds
  by (auto simp: check_model_presence_def split: sum.splits)


text \<open>
  Claim C4 says that a file whose digest differs from the expected hash fails with
  InvalidXGBoostModelError. For a corrupt file under a known model's name the integrity
  check, and with it the presence check, raises NameError instead.
\<close>

theorem corrupt_model_raises_NameError:
  "check_model_presence corrupt_model_fs ''/home/user'' ''model_20210316_Immuno_HCD_B.xgboost''
     = Inl (NameError ''f'')
   \<and> check_model_integrity corrupt_model_fs
        ''/home/user/.ms2pip/model_20210316_Immuno_HCD_B.xgboost''
     = Inl (NameError ''f'')"
  by code_simp

end
